theory Spec2Isabelle
  imports Complex_Main
begin

section \<open>JavaScript values\<close>

text \<open>
  The cache files, the lockout file and the upstream's response bodies hold JSON. A JSON
  number is an exact rational here (\<open>NaN\<close> is written \<open>None\<close> where an
  operation can produce it; infinities and rounding are outside the model). An object is
  the list of its members, each name once; a string is the list of its code units;
  \<open>undefined\<close> is not JSON but is a value a property read can give.
\<close>

datatype json =
  JNull
  | JBool bool
  | JNum rat
  | JStr string
  | JArr "json list"
  | JObj "(string \<times> json) list"

datatype jsval = Undefined | Val json

text \<open>The truthiness test of \<open>if (x)\<close> and \<open>x || y\<close>.\<close>

fun truthy :: "jsval \<Rightarrow> bool" where
  "truthy Undefined = False"
| "truthy (Val JNull) = False"
| "truthy (Val (JBool b)) = b"
| "truthy (Val (JNum r)) = (r \<noteq> 0)"
| "truthy (Val (JStr s)) = (s \<noteq> [])"
| "truthy (Val (JArr xs)) = True"
| "truthy (Val (JObj kvs)) = True"

text \<open>
  The exceptions of the program: the source's \<open>ApiError\<close> (message, statusCode,
  retryAfter), the plain \<open>Error\<close> of the fetchers, and those the runtime raises. The
  message is the value handed to the constructor; \<open>retryAfter\<close> is a whole number of
  seconds or \<open>NaN\<close> (\<open>None\<close>).
\<close>

datatype exn =
  ApiError jsval nat "int option"
  | Error jsval
  | TypeError
  | SyntaxError
  | IoError
  | FetchFailed

text \<open>
  \<open>x.k\<close> on a parsed JSON value, for the keys the program reads (\<open>expiry\<close>,
  \<open>data\<close>, \<open>error\<close>, \<open>message\<close>): a \<open>TypeError\<close> on \<open>null\<close>, the member
  of an object, and \<open>undefined\<close> on every other value, none of whose prototypes has
  these keys. \<open>x?.k\<close> gives \<open>undefined\<close> on \<open>null\<close> and \<open>undefined\<close>.
\<close>

fun get_prop :: "json \<Rightarrow> string \<Rightarrow> exn + jsval" where
  "get_prop JNull k = Inl TypeError"
| "get_prop (JObj kvs) k = Inr (case map_of kvs k of None \<Rightarrow> Undefined | Some v \<Rightarrow> Val v)"
| "get_prop v k = Inr Undefined"

fun opt_chain :: "jsval \<Rightarrow> string \<Rightarrow> jsval" where
  "opt_chain Undefined k = Undefined"
| "opt_chain (Val JNull) k = Undefined"
| "opt_chain (Val (JObj kvs)) k = (case map_of kvs k of None \<Rightarrow> Undefined | Some v \<Rightarrow> Val v)"
| "opt_chain (Val v) k = Undefined"

text \<open>
  The built-ins of the runtime that the model takes as given: \<open>ToNumber\<close> on strings,
  arrays and objects (\<open>None\<close> is \<open>NaN\<close>), and \<open>Date.prototype.toISOString\<close>.
\<close>

record runtime =
  coerce :: "json \<Rightarrow> rat option"
  toISOString :: "int \<Rightarrow> string"

fun ToNumber :: "runtime \<Rightarrow> jsval \<Rightarrow> rat option" where
  "ToNumber rt Undefined = None"
| "ToNumber rt (Val JNull) = Some 0"
| "ToNumber rt (Val (JBool b)) = Some (if b then 1 else 0)"
| "ToNumber rt (Val (JNum r)) = Some r"
| "ToNumber rt (Val v) = coerce rt v"

text \<open>\<open>a > b\<close>, \<open>a - b\<close>, \<open>a <= 0\<close> and \<open>Math.ceil(a / 1000)\<close> on numbers; a comparison with \<open>NaN\<close> is false.\<close>

definition js_gt :: "int \<Rightarrow> rat option \<Rightarrow> bool" where
  "js_gt a b = (case b of None \<Rightarrow> False | Some y \<Rightarrow> of_int a > y)"

definition js_minus :: "rat option \<Rightarrow> int \<Rightarrow> rat option" where
  "js_minus a b = (case a of None \<Rightarrow> None | Some x \<Rightarrow> Some (x - of_int b))"

definition js_le0 :: "rat option \<Rightarrow> bool" where
  "js_le0 a = (case a of None \<Rightarrow> False | Some x \<Rightarrow> x \<le> 0)"

definition ceil_div1000 :: "rat option \<Rightarrow> int option" where
  "ceil_div1000 a = (case a of None \<Rightarrow> None | Some x \<Rightarrow> Some \<lceil>x / 1000\<rceil>)"

text \<open>A number inside a template string: decimal digits, a sign, or \<open>NaN\<close>.\<close>

fun show_nat :: "nat \<Rightarrow> string" where
  "show_nat n =
     (if n < 10 then [''0123456789'' ! n]
      else show_nat (n div 10) @ [''0123456789'' ! (n mod 10)])"

declare show_nat.simps [simp del]

definition show_number :: "int option \<Rightarrow> string" where
  "show_number x =
     (case x of
        None \<Rightarrow> ''NaN''
      | Some i \<Rightarrow> if i < 0 then CHR ''-'' # show_nat (nat (- i)) else show_nat (nat i))"

section \<open>The world: clock, files, upstream, console\<close>

text \<open>
  A request to the upstream is kept by its endpoint and parameters in place of the URL
  text; the bearer token is its second part. The reviews request carries the cursor only
  when \<open>if (pageToken)\<close> holds.
\<close>

datatype endpoint =
  AccountsList
  | LocationsList string
  | ReviewsList string string "string option"

datatype request = Request endpoint string

text \<open>A response: its status and its body as \<open>res.json()\<close> reads it (\<open>None\<close>: not JSON).\<close>

datatype response = Response (status: nat) (body: "json option")

text \<open>The lines the program writes to the console, by their tag and arguments.\<close>

datatype log =
  CacheHit string
  | CacheSet string int
  | CacheWriteError exn
  | LockoutSet
  | LockoutWriteError exn
  | Blocked "int option"

text \<open>
  A file's content is what \<open>JSON.parse\<close> makes of its text: \<open>Some v\<close>, or \<open>None\<close>
  when the text is not JSON. \<open>JSON.stringify\<close> of a JSON value writes a text that parses
  back to it. The \<open>_fails\<close> fields are the I/O faults of the storage; \<open>upstream\<close> is
  the reply to each request (\<open>None\<close>: the connection fails), and each network call
  takes \<open>latency\<close> milliseconds of the clock. \<open>net\<close> lists the requests issued.
\<close>

record world =
  clock :: int
  files :: "string \<rightharpoonup> json option"
  cache_dir_exists :: bool
  read_fails :: "string \<Rightarrow> bool"
  write_fails :: "string \<Rightarrow> bool"
  unlink_fails :: "string \<Rightarrow> bool"
  mkdir_fails :: bool
  upstream :: "request \<Rightarrow> response option"
  latency :: nat
  net :: "request list"
  console :: "log list"

text \<open>A computation returns a value or throws, and leaves a world either way.\<close>

type_synonym 'a js = "world \<Rightarrow> (exn + 'a) \<times> world"

definition ret :: "'a \<Rightarrow> 'a js" where
  "ret x w = (Inr x, w)"

definition throw :: "exn \<Rightarrow> 'a js" where
  "throw e w = (Inl e, w)"

definition lift :: "exn + 'a \<Rightarrow> 'a js" where
  "lift r w = (r, w)"

definition bind :: "'a js \<Rightarrow> ('a \<Rightarrow> 'b js) \<Rightarrow> 'b js" where
  "bind m f w = (case m w of (Inl e, w') \<Rightarrow> (Inl e, w') | (Inr x, w') \<Rightarrow> f x w')"

definition try_catch :: "'a js \<Rightarrow> (exn \<Rightarrow> 'a js) \<Rightarrow> 'a js" where
  "try_catch m h w = (case m w of (Inl e, w') \<Rightarrow> h e w' | (Inr x, w') \<Rightarrow> (Inr x, w'))"

definition Date_now :: "int js" where
  "Date_now w = (Inr (clock w), w)"

definition console_log :: "log \<Rightarrow> unit js" where
  "console_log l w = (Inr (), w\<lparr>console := console w @ [l]\<rparr>)"

definition existsSync :: "string \<Rightarrow> world \<Rightarrow> bool" where
  "existsSync p w = (files w p \<noteq> None)"

definition readFileSync :: "string \<Rightarrow> (json option) js" where
  "readFileSync p w =
     (case files w p of
        None \<Rightarrow> (Inl IoError, w)
      | Some c \<Rightarrow> if read_fails w p then (Inl IoError, w) else (Inr c, w))"

definition JSON_parse :: "json option \<Rightarrow> exn + json" where
  "JSON_parse raw = (case raw of None \<Rightarrow> Inl SyntaxError | Some v \<Rightarrow> Inr v)"

definition JSON_stringify :: "json \<Rightarrow> json option" where
  "JSON_stringify v = Some v"

definition unlinkSync :: "string \<Rightarrow> unit js" where
  "unlinkSync p w =
     (if files w p = None \<or> unlink_fails w p then (Inl IoError, w)
      else (Inr (), w\<lparr>files := (files w)(p := None)\<rparr>))"

definition writeFileSync :: "string \<Rightarrow> json option \<Rightarrow> unit js" where
  "writeFileSync p c w =
     (if \<not> cache_dir_exists w \<or> write_fails w p then (Inl IoError, w)
      else (Inr (), w\<lparr>files := (files w)(p \<mapsto> c)\<rparr>))"

definition mkdirSync :: "unit js" where
  "mkdirSync w =
     (if mkdir_fails w then (Inl IoError, w) else (Inr (), w\<lparr>cache_dir_exists := True\<rparr>))"

definition fetch :: "request \<Rightarrow> response js" where
  "fetch req w =
     (let w' = w\<lparr>clock := clock w + int (latency w), net := net w @ [req]\<rparr>
      in case upstream w req of None \<Rightarrow> (Inl FetchFailed, w') | Some res \<Rightarrow> (Inr res, w'))"

definition res_json :: "response \<Rightarrow> exn + json" where
  "res_json res = (case body res of None \<Rightarrow> Inl SyntaxError | Some v \<Rightarrow> Inr v)"

definition ok :: "response \<Rightarrow> bool" where
  "ok res = (200 \<le> status res \<and> status res \<le> 299)"

section \<open>The file cache\<close>

text \<open>Paths are relative to the working directory of the process.\<close>

definition CACHE_DIR :: string where
  "CACHE_DIR = ''.next/cache/google-api''"

definition CACHE_TTL :: int where
  "CACHE_TTL = 10 * 60 * 1000"

definition LOCKOUT_TTL :: int where
  "LOCKOUT_TTL = 60 * 1000"

definition LOCKOUT_FILE :: string where
  "LOCKOUT_FILE = CACHE_DIR @ ''/'' @ ''_rate_limit_lockout.json''"

definition ensureCacheDir :: "unit js" where
  "ensureCacheDir w = (if \<not> cache_dir_exists w then mkdirSync w else (Inr (), w))"

text \<open>The class \<open>[a-zA-Z0-9_-]\<close> and the replacement of every other character by \<open>_\<close>.\<close>

definition safe_char :: "char \<Rightarrow> bool" where
  "safe_char c =
     (c \<in> set (''abcdefghijklmnopqrstuvwxyz'' @ ''ABCDEFGHIJKLMNOPQRSTUVWXYZ'' @ ''0123456789'' @ ''_-''))"

definition sanitize :: "string \<Rightarrow> string" where
  "sanitize key = map (\<lambda>c. if safe_char c then c else CHR ''_'') key"

definition getCacheFilePath :: "string \<Rightarrow> string" where
  "getCacheFilePath key = (let safeKey = sanitize key in CACHE_DIR @ ''/'' @ safeKey @ ''.json'')"

definition getCached_try :: "runtime \<Rightarrow> string \<Rightarrow> jsval js" where
  "getCached_try rt key w =
     (let filePath = getCacheFilePath key in
      if \<not> existsSync filePath w then ret (Val JNull) w
      else
        bind (readFileSync filePath) (\<lambda>raw.
        bind (lift (JSON_parse raw)) (\<lambda>entry.
        bind Date_now (\<lambda>now.
        bind (lift (get_prop entry ''expiry'')) (\<lambda>expiry.
          if js_gt now (ToNumber rt expiry)
          then bind (unlinkSync filePath) (\<lambda>_. ret (Val JNull))
          else bind (console_log (CacheHit key)) (\<lambda>_. lift (get_prop entry ''data'')))))) w)"

definition getCached :: "runtime \<Rightarrow> string \<Rightarrow> jsval js" where
  "getCached rt key = try_catch (getCached_try rt key) (\<lambda>_. ret (Val JNull))"

text \<open>\<open>JSON.stringify\<close> leaves a member out when its value is \<open>undefined\<close>.\<close>

definition cache_entry :: "jsval \<Rightarrow> int \<Rightarrow> json" where
  "cache_entry data expiry =
     JObj ((case data of Undefined \<Rightarrow> [] | Val d \<Rightarrow> [(''data'', d)]) @ [(''expiry'', JNum (of_int expiry))])"

definition setCache_try :: "string \<Rightarrow> jsval \<Rightarrow> int \<Rightarrow> unit js" where
  "setCache_try key data ttlMs =
     bind ensureCacheDir (\<lambda>_.
     let filePath = getCacheFilePath key in
     bind Date_now (\<lambda>now.
     bind (writeFileSync filePath (JSON_stringify (cache_entry data (now + ttlMs)))) (\<lambda>_.
     console_log (CacheSet key ttlMs))))"

definition setCache :: "string \<Rightarrow> jsval \<Rightarrow> int \<Rightarrow> unit js" where
  "setCache key data ttlMs = try_catch (setCache_try key data ttlMs) (\<lambda>err. console_log (CacheWriteError err))"

section \<open>The rate-limit lockout\<close>

record lockout_status =
  locked :: bool
  remainingSeconds :: "int option"

definition isLockedOut_try :: "runtime \<Rightarrow> lockout_status js" where
  "isLockedOut_try rt w =
     (if \<not> existsSync LOCKOUT_FILE w then ret \<lparr>locked = False, remainingSeconds = Some 0\<rparr> w
      else
        bind (readFileSync LOCKOUT_FILE) (\<lambda>raw.
        bind (lift (JSON_parse raw)) (\<lambda>lockout.
        bind (lift (get_prop lockout ''expiry'')) (\<lambda>expiry.
        bind Date_now (\<lambda>now.
          let remaining = js_minus (ToNumber rt expiry) now in
          if js_le0 remaining
          then bind (unlinkSync LOCKOUT_FILE) (\<lambda>_. ret \<lparr>locked = False, remainingSeconds = Some 0\<rparr>)
          else ret \<lparr>locked = True, remainingSeconds = ceil_div1000 remaining\<rparr>)))) w)"

definition isLockedOut :: "runtime \<Rightarrow> lockout_status js" where
  "isLockedOut rt =
     try_catch (isLockedOut_try rt) (\<lambda>_. ret \<lparr>locked = False, remainingSeconds = Some 0\<rparr>)"

definition lockout_entry :: "runtime \<Rightarrow> int \<Rightarrow> json" where
  "lockout_entry rt now =
     JObj [(''expiry'', JNum (of_int (now + LOCKOUT_TTL))), (''setAt'', JStr (toISOString rt now))]"

definition setLockout_try :: "runtime \<Rightarrow> unit js" where
  "setLockout_try rt =
     bind ensureCacheDir (\<lambda>_.
     bind Date_now (\<lambda>now.
     bind (writeFileSync LOCKOUT_FILE (JSON_stringify (lockout_entry rt now))) (\<lambda>_.
     console_log LockoutSet)))"

definition setLockout :: "runtime \<Rightarrow> unit js" where
  "setLockout rt = try_catch (setLockout_try rt) (\<lambda>err. console_log (LockoutWriteError err))"

section \<open>The guarded fetch\<close>

definition blocked_message :: "int option \<Rightarrow> string" where
  "blocked_message secs = ''Rate limit active. Please wait '' @ show_number secs @ '' seconds.''"

definition exceeded_message :: "int option \<Rightarrow> string" where
  "exceeded_message secs = ''Rate limit exceeded. Please wait '' @ show_number secs @ '' seconds.''"

definition guardedFetch :: "runtime \<Rightarrow> request \<Rightarrow> response js" where
  "guardedFetch rt req =
     bind (isLockedOut rt) (\<lambda>lockout.
     if locked lockout
     then
       bind (console_log (Blocked (remainingSeconds lockout))) (\<lambda>_.
       throw (ApiError (Val (JStr (blocked_message (remainingSeconds lockout)))) 429
                (remainingSeconds lockout)))
     else
       bind (fetch req) (\<lambda>res.
       if status res = 429
       then
         bind (setLockout rt) (\<lambda>_.
         let retryAfter = ceil_div1000 (Some (of_int LOCKOUT_TTL));
             body = (case res_json res of Inl _ \<Rightarrow> JObj [] | Inr b \<Rightarrow> b)
         in
         bind (lift (get_prop body ''error'')) (\<lambda>err.
         let m = opt_chain err ''message'';
             msg = (if truthy m then m else Val (JStr (exceeded_message retryAfter)))
         in throw (ApiError msg 429 retryAfter)))
       else ret res))"

section \<open>The resource fetchers\<close>

text \<open>
  The three fetchers have one body, up to the cache key, the request and the message of
  the plain error; it is written once, the part after \<open>if (cached) return cached\<close>
  under a name of its own.
\<close>

definition fetchOnMiss :: "runtime \<Rightarrow> string \<Rightarrow> request \<Rightarrow> string \<Rightarrow> jsval js" where
  "fetchOnMiss rt cacheKey req failMsg =
     bind (guardedFetch rt req) (\<lambda>res.
     if \<not> ok res
     then
       bind (lift (res_json res)) (\<lambda>error.
       bind (lift (get_prop error ''error'')) (\<lambda>e.
       let m = opt_chain e ''message'' in
       throw (Error (if truthy m then m else Val (JStr failMsg)))))
     else
       bind (lift (res_json res)) (\<lambda>data.
       bind (setCache cacheKey (Val data) CACHE_TTL) (\<lambda>_.
       ret (Val data))))"

definition fetchResource :: "runtime \<Rightarrow> string \<Rightarrow> request \<Rightarrow> string \<Rightarrow> jsval js" where
  "fetchResource rt cacheKey req failMsg =
     bind (getCached rt cacheKey) (\<lambda>cached.
     if truthy cached then ret cached else fetchOnMiss rt cacheKey req failMsg)"

text \<open>\<open>s.replace(/\\//g, '_')\<close>.\<close>

definition slash_to_underscore :: "string \<Rightarrow> string" where
  "slash_to_underscore s = map (\<lambda>c. if c = CHR ''/'' then CHR ''_'' else c) s"

text \<open>\<open>pageToken || 'first'\<close>, and the cursor as \<open>if (pageToken)\<close> passes it on.\<close>

definition token_or_first :: "string option \<Rightarrow> string" where
  "token_or_first pageToken =
     (case pageToken of None \<Rightarrow> ''first'' | Some t \<Rightarrow> if t = [] then ''first'' else t)"

definition cursor :: "string option \<Rightarrow> string option" where
  "cursor pageToken = (case pageToken of None \<Rightarrow> None | Some t \<Rightarrow> if t = [] then None else Some t)"

definition accountsKey :: string where
  "accountsKey = ''accounts''"

definition locationsKey :: "string \<Rightarrow> string" where
  "locationsKey accountId = ''locations_'' @ slash_to_underscore accountId"

definition reviewsKey :: "string \<Rightarrow> string \<Rightarrow> string option \<Rightarrow> string" where
  "reviewsKey accountId locationId pageToken =
     ''reviews_'' @ slash_to_underscore accountId @ ''_'' @ slash_to_underscore locationId
       @ ''_'' @ token_or_first pageToken"

definition fetchAccounts :: "runtime \<Rightarrow> string \<Rightarrow> jsval js" where
  "fetchAccounts rt accessToken =
     fetchResource rt accountsKey (Request AccountsList accessToken) ''Failed to fetch accounts''"

definition fetchLocations :: "runtime \<Rightarrow> string \<Rightarrow> string \<Rightarrow> jsval js" where
  "fetchLocations rt accessToken accountId =
     fetchResource rt (locationsKey accountId) (Request (LocationsList accountId) accessToken)
       ''Failed to fetch locations''"

definition fetchReviews :: "runtime \<Rightarrow> string \<Rightarrow> string \<Rightarrow> string \<Rightarrow> string option \<Rightarrow> jsval js" where
  "fetchReviews rt accessToken accountId locationId pageToken =
     fetchResource rt (reviewsKey accountId locationId pageToken)
       (Request (ReviewsList accountId locationId (cursor pageToken)) accessToken)
       ''Failed to fetch reviews''"

section \<open>The client's retry countdown\<close>

text \<open>
  The retry closures of the three loaders, by the call they repeat, and the banner texts:
  \<open>QuotaMessage\<close> is the fixed text that \<open>handleQuotaError\<close> sets.
\<close>

datatype action =
  LoadAccounts
  | LoadLocations string
  | LoadReviews string string "string option"

datatype message = QuotaMessage | Message string

text \<open>
  The state of \<open>Home\<close> that the countdown uses: the three pieces of React state, whether
  \<open>countdownRef.current\<close> holds an interval, the number of intervals alive in the
  browser, whether the last run of the effect returned its cleanup, and the actions the
  effect has called.
\<close>

record client =
  countdown :: int
  pendingAction :: "action option"
  error :: "message option"
  countdownRef :: bool
  timers :: nat
  cleanup :: bool
  invoked :: "action list"

definition clear_interval :: "client \<Rightarrow> client" where
  "clear_interval s =
     (if countdownRef s then s\<lparr>countdownRef := False, timers := timers s - 1\<rparr> else s)"

definition effect_cleanup :: "client \<Rightarrow> client" where
  "effect_cleanup s = (if cleanup s then (clear_interval s)\<lparr>cleanup := False\<rparr> else s)"

definition countdown_effect :: "client \<Rightarrow> client" where
  "countdown_effect s =
     (if countdown s \<le> 0
      then
        (let s1 = clear_interval s in
         case pendingAction s1 of
           Some act \<Rightarrow> s1\<lparr>pendingAction := None, error := None, cleanup := False,
                            invoked := invoked s1 @ [act]\<rparr>
         | None \<Rightarrow> s1\<lparr>cleanup := False\<rparr>)
      else
        (if \<not> countdownRef s
         then s\<lparr>countdownRef := True, timers := timers s + 1, cleanup := True\<rparr>
         else s\<lparr>cleanup := True\<rparr>))"

text \<open>
  A render after a change of \<open>countdown\<close> or \<open>pendingAction\<close>: the cleanup of the
  last run, then the effect; when the effect itself cleared \<open>pendingAction\<close>, once more.
\<close>

definition rerender :: "client \<Rightarrow> client" where
  "rerender s =
     (let s' = countdown_effect (effect_cleanup s)
      in if pendingAction s' \<noteq> pendingAction s then countdown_effect (effect_cleanup s') else s')"

text \<open>One firing of the interval: \<open>setCountdown((prev) => Math.max(0, prev - 1))\<close>.\<close>

definition tick :: "client \<Rightarrow> client" where
  "tick s =
     (if timers s = 0 then s
      else
        let c = max 0 (countdown s - 1)
        in if c = countdown s then s else rerender (s\<lparr>countdown := c\<rparr>))"

definition handleQuotaError :: "int \<Rightarrow> action \<Rightarrow> client \<Rightarrow> client" where
  "handleQuotaError retryAfter retryFn s =
     (let waitSecs = max retryAfter 60
      in rerender (s\<lparr>countdown := waitSecs, pendingAction := Some retryFn, error := Some QuotaMessage\<rparr>))"

text \<open>
  The 429 branch of a loader: \<open>handleQuotaError(data.retryAfter || 60, retryFn)\<close>, where
  \<open>retryFn\<close> repeats the call in progress (\<open>None\<close>: the body has no \<open>retryAfter\<close>).
\<close>

definition on_quota_response :: "action \<Rightarrow> int option \<Rightarrow> client \<Rightarrow> client" where
  "on_quota_response call retryAfter s =
     handleQuotaError (case retryAfter of None \<Rightarrow> 60 | Some r \<Rightarrow> if r = 0 then 60 else r) call s"

text \<open>The close button of the banner.\<close>

definition dismiss :: "client \<Rightarrow> client" where
  "dismiss s = rerender (s\<lparr>countdown := 0, pendingAction := None, error := None\<rparr>)"

definition initial_client :: client where
  "initial_client =
     \<lparr>countdown = 0, pendingAction = None, error = None, countdownRef = False, timers = 0,
      cleanup = False, invoked = []\<rparr>"

text \<open>What holds of the state between events: one interval at most, held by the ref.\<close>

definition settled :: "client \<Rightarrow> bool" where
  "settled s =
     (cleanup s = countdownRef s \<and> timers s = (if countdownRef s then 1 else 0) \<and>
      countdownRef s = (0 < countdown s))"

section \<open>Predicates of the claims\<close>

text \<open>
  A world holds a fresh entry for a key when the file of the key is the record
  \<open>setCache\<close> writes for the payload, is readable, and has not expired. The lockout is
  tripped when the guard reports locked.
\<close>

definition holds_fresh :: "world \<Rightarrow> string \<Rightarrow> jsval \<Rightarrow> int \<Rightarrow> bool" where
  "holds_fresh w key v e =
     (files w (getCacheFilePath key) = Some (Some (cache_entry v e)) \<and>
      \<not> read_fails w (getCacheFilePath key) \<and> clock w \<le> e)"

definition tripped :: "runtime \<Rightarrow> world \<Rightarrow> bool" where
  "tripped rt w = (case fst (isLockedOut rt w) of Inl _ \<Rightarrow> False | Inr st \<Rightarrow> locked st)"

text \<open>
  Strings over the class \<open>[a-zA-Z0-9_-]\<close>, over the class without \<open>_\<close>, and the
  cursors over the class that are not the sentinel of the first page.
\<close>

definition plain :: "string \<Rightarrow> bool" where
  "plain s = list_all (\<lambda>c. safe_char c \<and> c \<noteq> CHR ''_'') s"

definition safe :: "string \<Rightarrow> bool" where
  "safe s = list_all safe_char s"

definition safe_token :: "string option \<Rightarrow> bool" where
  "safe_token pageToken =
     (case cursor pageToken of None \<Rightarrow> True | Some t \<Rightarrow> safe t \<and> t \<noteq> ''first'')"

text \<open>The state after the effect has called the stored action.\<close>

definition fired :: "action \<Rightarrow> client \<Rightarrow> client" where
  "fired a s =
     s\<lparr>countdown := 0, pendingAction := None, error := None, countdownRef := False,
       timers := 0, cleanup := False, invoked := invoked s @ [a]\<rparr>"

section \<open>Concrete worlds\<close>

text \<open>
  A runtime, a world with an empty cache whose upstream answers every request with an
  empty account list, and the same world one second into a lockout that lasts until
  \<open>31000\<close>.
\<close>

definition demo_runtime :: runtime where
  "demo_runtime = \<lparr>coerce = (\<lambda>_. None), toISOString = (\<lambda>_. ''1970-01-01T00:00:01.000Z'')\<rparr>"

definition demo_world :: world where
  "demo_world =
     \<lparr>clock = 1000, files = Map.empty, cache_dir_exists = False,
      read_fails = (\<lambda>_. False), write_fails = (\<lambda>_. False), unlink_fails = (\<lambda>_. False),
      mkdir_fails = False,
      upstream = (\<lambda>_. Some (Response 200 (Some (JObj [(''accounts'', JArr [])])))),
      latency = 5, net = [], console = []\<rparr>"

definition locked_world :: world where
  "locked_world =
     demo_world\<lparr>files := [LOCKOUT_FILE \<mapsto> Some (JObj [(''expiry'', JNum 31000), (''setAt'', JStr ''x'')])]\<rparr>"

text \<open>
  An upstream that answers 429 with a given body; the locked world with a fresh entry of a
  given payload under a given key; a storage whose files are not JSON and which refuses
  every write.
\<close>

definition quota_world :: "json option \<Rightarrow> world" where
  "quota_world b = demo_world\<lparr>upstream := (\<lambda>_. Some (Response 429 b))\<rparr>"

definition warm_locked_world :: "string \<Rightarrow> json \<Rightarrow> world" where
  "warm_locked_world key d =
     locked_world\<lparr>files := (files locked_world)
       (getCacheFilePath key \<mapsto> Some (cache_entry (Val d) 601000))\<rparr>"

definition broken_world :: world where
  "broken_world =
     demo_world\<lparr>files := [getCacheFilePath accountsKey \<mapsto> None, LOCKOUT_FILE \<mapsto> None],
       cache_dir_exists := True, write_fails := (\<lambda>_. True)\<rparr>"

section \<open>Facts about storage and the guard\<close>

lemmas js_defs =
  ret_def throw_def lift_def bind_def try_catch_def Date_now_def console_log_def
  existsSync_def readFileSync_def JSON_parse_def JSON_stringify_def unlinkSync_def
  writeFileSync_def mkdirSync_def ensureCacheDir_def

lemma setCache_writes:
  assumes "cache_dir_exists w \<or> \<not> mkdir_fails w" "\<not> write_fails w (getCacheFilePath k)"
  shows "setCache k v ttl w =
     (Inr (), w\<lparr>cache_dir_exists := True,
                files := (files w)(getCacheFilePath k \<mapsto> Some (cache_entry v (clock w + ttl))),
                console := console w @ [CacheSet k ttl]\<rparr>)"
  using assms by (auto simp: setCache_def setCache_try_def js_defs Let_def)

lemma getCached_fresh:
  assumes "files w (getCacheFilePath k) = Some (Some (cache_entry v e))"
    "\<not> read_fails w (getCacheFilePath k)" "clock w \<le> e"
  shows "getCached rt k w = (Inr v, w\<lparr>console := console w @ [CacheHit k]\<rparr>)"
  using assms
  by (cases v) (auto simp: getCached_def getCached_try_def js_defs Let_def cache_entry_def js_gt_def)

lemma getCached_stale:
  assumes "files w (getCacheFilePath k) = Some (Some (cache_entry v e))"
    "\<not> read_fails w (getCacheFilePath k)" "\<not> unlink_fails w (getCacheFilePath k)" "clock w > e"
  shows "getCached rt k w = (Inr (Val JNull), w\<lparr>files := (files w)(getCacheFilePath k := None)\<rparr>)"
  using assms
  by (cases v) (auto simp: getCached_def getCached_try_def js_defs Let_def cache_entry_def js_gt_def)

lemma isLockedOut_locked:
  assumes "files w LOCKOUT_FILE = Some (Some lockout)" "\<not> read_fails w LOCKOUT_FILE"
    "get_prop lockout ''expiry'' = Inr x" "ToNumber rt x = Some e" "of_int (clock w) < e"
  shows "isLockedOut rt w =
     (Inr \<lparr>locked = True, remainingSeconds = Some \<lceil>(e - of_int (clock w)) / 1000\<rceil>\<rparr>, w)"
  using assms
  by (simp add: isLockedOut_def isLockedOut_try_def js_defs Let_def js_minus_def js_le0_def
      ceil_div1000_def)

lemma isLockedOut_expired:
  assumes "files w LOCKOUT_FILE = Some (Some lockout)" "\<not> read_fails w LOCKOUT_FILE"
    "get_prop lockout ''expiry'' = Inr x" "ToNumber rt x = Some e" "e \<le> of_int (clock w)"
    "\<not> unlink_fails w LOCKOUT_FILE"
  shows "isLockedOut rt w =
     (Inr \<lparr>locked = False, remainingSeconds = Some 0\<rparr>, w\<lparr>files := (files w)(LOCKOUT_FILE := None)\<rparr>)"
  using assms
  by (simp add: isLockedOut_def isLockedOut_try_def js_defs Let_def js_minus_def js_le0_def
      ceil_div1000_def)

lemma isLockedOut_absent:
  assumes "files w LOCKOUT_FILE = None"
  shows "isLockedOut rt w = (Inr \<lparr>locked = False, remainingSeconds = Some 0\<rparr>, w)"
  using assms by (simp add: isLockedOut_def isLockedOut_try_def js_defs)

lemma isLockedOut_returns: "\<exists>st. fst (isLockedOut rt w) = Inr st"
  by (auto simp: isLockedOut_def try_catch_def ret_def split: prod.splits sum.splits)

lemma isLockedOut_try_net: "net (snd (isLockedOut_try rt w)) = net w"
  by (auto simp: isLockedOut_try_def js_defs Let_def split: option.splits sum.splits)

lemma isLockedOut_net: "net (snd (isLockedOut rt w)) = net w"
  using isLockedOut_try_net[of rt w]
  by (auto simp: isLockedOut_def try_catch_def ret_def split: prod.splits sum.splits)

lemma isLockedOut_locked_world:
  "isLockedOut rt w = (Inr st, w') \<Longrightarrow> locked st \<Longrightarrow> w' = w"
  by (auto simp: isLockedOut_def isLockedOut_try_def js_defs Let_def
      split: option.splits sum.splits if_splits)

lemma setLockout_result:
  "setLockout rt w = (r, w') \<Longrightarrow> r = Inr () \<and> net w' = net w \<and> clock w' = clock w"
  by (auto simp: setLockout_def setLockout_try_def js_defs Let_def split: if_splits)

lemma guardedFetch_locked:
  assumes "isLockedOut rt w = (Inr st, w')" "locked st"
  shows "guardedFetch rt req w =
     (Inl (ApiError (Val (JStr (blocked_message (remainingSeconds st)))) 429 (remainingSeconds st)),
      w\<lparr>console := console w @ [Blocked (remainingSeconds st)]\<rparr>)"
  using assms isLockedOut_locked_world[OF assms]
  by (simp add: guardedFetch_def bind_def throw_def console_log_def)

lemma guardedFetch_open_net:
  assumes "isLockedOut rt w = (Inr st, w')" "\<not> locked st"
  shows "net (snd (guardedFetch rt req w)) = net w @ [req]"
proof -
  have n: "net w' = net w"
    using isLockedOut_net[of rt w] assms(1) by simp
  show ?thesis
    using assms n
    by (auto simp: guardedFetch_def bind_def throw_def fetch_def Let_def ret_def lift_def
        split: option.splits prod.splits sum.splits dest!: setLockout_result)
qed

lemma getCached_returns: "\<exists>v. fst (getCached rt k w) = Inr v"
  by (auto simp: getCached_def try_catch_def ret_def split: prod.splits sum.splits)

lemma getCached_catch:
  "fst (getCached_try rt k w) = Inl e \<Longrightarrow> fst (getCached rt k w) = Inr (Val JNull)"
  by (auto simp: getCached_def try_catch_def ret_def split: prod.splits sum.splits)

lemma getCached_unreadable:
  "files w (getCacheFilePath k) = Some c \<Longrightarrow> read_fails w (getCacheFilePath k) \<or> c = None \<Longrightarrow>
     getCached rt k w = (Inr (Val JNull), w)"
  by (auto simp: getCached_def getCached_try_def js_defs Let_def)

lemma isLockedOut_catch:
  "fst (isLockedOut_try rt w) = Inl e \<Longrightarrow>
     fst (isLockedOut rt w) = Inr \<lparr>locked = False, remainingSeconds = Some 0\<rparr>"
  by (auto simp: isLockedOut_def try_catch_def ret_def split: prod.splits sum.splits)

lemma isLockedOut_unreadable:
  "files w LOCKOUT_FILE = Some c \<Longrightarrow> read_fails w LOCKOUT_FILE \<or> c = None \<Longrightarrow>
     isLockedOut rt w = (Inr \<lparr>locked = False, remainingSeconds = Some 0\<rparr>, w)"
  by (auto simp: isLockedOut_def isLockedOut_try_def js_defs Let_def)

lemma setCache_result:
  "setCache k v ttl w = (r, w') \<Longrightarrow> r = Inr () \<and> net w' = net w \<and> clock w' = clock w"
  by (auto simp: setCache_def setCache_try_def js_defs Let_def split: if_splits)

lemma setCache_caught:
  "fst (setCache_try k v ttl w) = Inl e \<Longrightarrow>
     console (snd (setCache k v ttl w)) = console w @ [CacheWriteError e] \<and>
     files (snd (setCache k v ttl w)) = files w"
  by (auto simp: setCache_def setCache_try_def js_defs Let_def split: if_splits)

lemma setLockout_caught:
  "fst (setLockout_try rt w) = Inl e \<Longrightarrow>
     console (snd (setLockout rt w)) = console w @ [LockoutWriteError e] \<and>
     files (snd (setLockout rt w)) = files w"
  by (auto simp: setLockout_def setLockout_try_def js_defs Let_def split: if_splits)

lemma setLockout_writes:
  assumes "cache_dir_exists w \<or> \<not> mkdir_fails w" "\<not> write_fails w LOCKOUT_FILE"
  shows "setLockout rt w =
     (Inr (), w\<lparr>cache_dir_exists := True,
                files := (files w)(LOCKOUT_FILE \<mapsto> Some (lockout_entry rt (clock w))),
                console := console w @ [LockoutSet]\<rparr>)"
  using assms by (auto simp: setLockout_def setLockout_try_def js_defs Let_def)

lemma get_prop_opt_chain: "b \<noteq> JNull \<Longrightarrow> get_prop b k = Inr (opt_chain (Val b) k)"
  by (cases b) simp_all

lemma retry_after_60: "ceil_div1000 (Some (of_int LOCKOUT_TTL)) = Some 60"
  by (simp add: ceil_div1000_def LOCKOUT_TTL_def)

lemma show_nat_60: "show_nat 60 = ''60''"
  by (simp add: show_nat.simps[of 60] show_nat.simps[of 6])

lemma exceeded_message_60:
  "exceeded_message (Some 60) = ''Rate limit exceeded. Please wait 60 seconds.''"
  by (simp add: exceeded_message_def show_number_def show_nat_60)

lemma guardedFetch_429:
  assumes "isLockedOut rt w = (Inr st, w1)" "\<not> locked st"
    "upstream w1 req = Some res" "status res = 429" "body res \<noteq> Some JNull"
  shows "guardedFetch rt req w =
     (let m = (case body res of None \<Rightarrow> Undefined
                | Some b \<Rightarrow> opt_chain (opt_chain (Val b) ''error'') ''message'')
      in (Inl (ApiError (if truthy m then m
                         else Val (JStr ''Rate limit exceeded. Please wait 60 seconds.'')) 429 (Some 60)),
          snd (setLockout rt (w1\<lparr>clock := clock w1 + int (latency w1), net := net w1 @ [req]\<rparr>))))"
proof -
  let ?w2 = "w1\<lparr>clock := clock w1 + int (latency w1), net := net w1 @ [req]\<rparr>"
  obtain w3 where s: "setLockout rt ?w2 = (Inr (), w3)"
    using setLockout_result[of rt ?w2] by (metis prod.collapse)
  show ?thesis
  proof (cases "body res")
    case None
    then show ?thesis
      using assms(1-4) s
      by (simp add: guardedFetch_def bind_def fetch_def Let_def throw_def lift_def res_json_def
          retry_after_60 exceeded_message_60)
  next
    case (Some b)
    with assms(5) have "b \<noteq> JNull" by simp
    then show ?thesis
      using assms(1-4) s Some
      by (simp add: guardedFetch_def bind_def fetch_def Let_def throw_def lift_def res_json_def
          retry_after_60 exceeded_message_60 get_prop_opt_chain)
  qed
qed

lemma isLockedOut_console:
  "isLockedOut rt (w\<lparr>console := c\<rparr>) =
     (fst (isLockedOut rt w), (snd (isLockedOut rt w))\<lparr>console := c\<rparr>)"
  by (auto simp: isLockedOut_def isLockedOut_try_def js_defs Let_def split: option.splits sum.splits)

lemma tripped_console: "tripped rt (w\<lparr>console := c\<rparr>) = tripped rt w"
  by (simp add: tripped_def isLockedOut_console)

lemma guardedFetch_tripped:
  assumes "tripped rt w"
  shows "\<exists>r. guardedFetch rt req w =
     (Inl (ApiError (Val (JStr (blocked_message r))) 429 r), w\<lparr>console := console w @ [Blocked r]\<rparr>)"
proof -
  obtain st where s: "fst (isLockedOut rt w) = Inr st" "locked st"
    using assms by (auto simp: tripped_def split: sum.splits)
  then have "isLockedOut rt w = (Inr st, snd (isLockedOut rt w))"
    by (metis prod.collapse)
  from guardedFetch_locked[OF this s(2)] show ?thesis by blast
qed

lemma guardedFetch_not_tripped:
  assumes "\<not> tripped rt w" "guardedFetch rt req w = (r, w')"
  shows "net w' = net w @ [req]"
proof -
  obtain st where s: "fst (isLockedOut rt w) = Inr st"
    using isLockedOut_returns by blast
  with assms(1) have l: "\<not> locked st" by (simp add: tripped_def)
  from s have "isLockedOut rt w = (Inr st, snd (isLockedOut rt w))"
    by (metis prod.collapse)
  from guardedFetch_open_net[OF this l, of req] assms(2) show ?thesis by simp
qed

lemma fetchOnMiss_tripped:
  assumes "tripped rt w"
  shows "\<exists>r. fetchOnMiss rt key req msg w =
     (Inl (ApiError (Val (JStr (blocked_message r))) 429 r), w\<lparr>console := console w @ [Blocked r]\<rparr>)"
  using guardedFetch_tripped[OF assms, of req]
  by (auto simp: fetchOnMiss_def bind_def)

lemma fetchOnMiss_not_tripped:
  assumes "\<not> tripped rt w"
  shows "net (snd (fetchOnMiss rt key req msg w)) = net w @ [req]"
  using guardedFetch_not_tripped[OF assms]
  by (auto simp: fetchOnMiss_def bind_def lift_def throw_def ret_def Let_def
      split: prod.splits sum.splits dest!: setCache_result)

lemma fetchResource_hit:
  assumes "holds_fresh w key v e" "truthy v"
  shows "fetchResource rt key req msg w = (Inr v, w\<lparr>console := console w @ [CacheHit key]\<rparr>)"
  using assms getCached_fresh[of w key v e rt]
  by (simp add: holds_fresh_def fetchResource_def bind_def ret_def)

lemma fetchResource_falsy:
  assumes "holds_fresh w key v e" "\<not> truthy v"
  shows "fetchResource rt key req msg w =
     fetchOnMiss rt key req msg (w\<lparr>console := console w @ [CacheHit key]\<rparr>)"
  using assms getCached_fresh[of w key v e rt]
  by (simp add: holds_fresh_def fetchResource_def bind_def ret_def)

lemma fetchResource_completes:
  assumes "getCached rt key w = (Inr c, w1)" "\<not> truthy c"
    "isLockedOut rt w1 = (Inr st, w2)" "\<not> locked st"
    "upstream w2 req = Some res" "ok res" "body res = Some data"
  shows "fst (fetchResource rt key req msg w) = Inr (Val data)"
proof -
  have n: "status res \<noteq> 429" using assms(6) by (simp add: ok_def)
  have g: "guardedFetch rt req w1 =
      (Inr res, w2\<lparr>clock := clock w2 + int (latency w2), net := net w2 @ [req]\<rparr>)"
    using assms(3-5) n by (simp add: guardedFetch_def bind_def fetch_def Let_def ret_def)
  show ?thesis
    using assms(1,2,6,7) g
    by (auto simp: fetchResource_def fetchOnMiss_def bind_def lift_def res_json_def ret_def
        split: prod.splits sum.splits dest!: setCache_result)
qed

section \<open>The claims\<close>

text \<open>
  C3. After \<open>setCache(k, v, ttl)\<close> on a storage that takes the write, a \<open>getCached(k)\<close>
  on any later world that still holds the record and can read and delete it returns
  \<open>v\<close> while the clock is at most the set time plus \<open>ttl\<close>; past that it returns
  \<open>null\<close> and deletes the file, so no record for \<open>k\<close> remains.
\<close>

theorem cache_ttl_roundtrip:
  assumes "cache_dir_exists w \<or> \<not> mkdir_fails w"
    and "\<not> write_fails w (getCacheFilePath k)"
    and "files w2 (getCacheFilePath k) = files (snd (setCache k v ttl w)) (getCacheFilePath k)"
    and "\<not> read_fails w2 (getCacheFilePath k)"
    and "\<not> unlink_fails w2 (getCacheFilePath k)"
  shows "(clock w2 \<le> clock w + ttl \<longrightarrow>
            getCached rt k w2 = (Inr v, w2\<lparr>console := console w2 @ [CacheHit k]\<rparr>)) \<and>
         (clock w2 > clock w + ttl \<longrightarrow>
            getCached rt k w2 =
              (Inr (Val JNull), w2\<lparr>files := (files w2)(getCacheFilePath k := None)\<rparr>) \<and>
            files (snd (getCached rt k w2)) (getCacheFilePath k) = None)"
proof -
  have f: "files w2 (getCacheFilePath k) = Some (Some (cache_entry v (clock w + ttl)))"
    using assms(3) by (simp add: setCache_writes[OF assms(1,2)])
  show ?thesis
    using getCached_fresh[OF f assms(4)] getCached_stale[OF f assms(4,5)] by simp
qed

theorem cache_ttl_roundtrip_witness:
  "fst (getCached demo_runtime ''accounts''
          ((snd (setCache ''accounts'' (Val (JStr ''payload'')) 600000 demo_world))\<lparr>clock := 601000\<rparr>))
     = Inr (Val (JStr ''payload'')) \<and>
   fst (getCached demo_runtime ''accounts''
          ((snd (setCache ''accounts'' (Val (JStr ''payload'')) 600000 demo_world))\<lparr>clock := 601001\<rparr>))
     = Inr (Val JNull) \<and>
   files (snd (getCached demo_runtime ''accounts''
          ((snd (setCache ''accounts'' (Val (JStr ''payload'')) 600000 demo_world))\<lparr>clock := 601001\<rparr>)))
      (getCacheFilePath ''accounts'') = None"
proof -
  let ?w1 = "snd (setCache ''accounts'' (Val (JStr ''payload'')) 600000 demo_world)"
  have a: "cache_dir_exists demo_world \<or> \<not> mkdir_fails demo_world"
    and b: "\<not> write_fails demo_world (getCacheFilePath ''accounts'')"
    by (simp_all add: demo_world_def)
  have r: "\<not> read_fails (?w1\<lparr>clock := t\<rparr>) (getCacheFilePath ''accounts'')"
    and u: "\<not> unlink_fails (?w1\<lparr>clock := t\<rparr>) (getCacheFilePath ''accounts'')" for t
    by (simp_all add: setCache_writes[OF a b]) (simp_all add: demo_world_def)
  have c: "clock demo_world = 1000"
    by (simp add: demo_world_def)
  show ?thesis
    using a b r u
      cache_ttl_roundtrip[where w = demo_world and k = "''accounts''" and v = "Val (JStr ''payload'')"
        and ttl = 600000 and rt = demo_runtime and ?w2.0 = "?w1\<lparr>clock := 601000\<rparr>"]
      cache_ttl_roundtrip[where w = demo_world and k = "''accounts''" and v = "Val (JStr ''payload'')"
        and ttl = 600000 and rt = demo_runtime and ?w2.0 = "?w1\<lparr>clock := 601001\<rparr>"]
    by (simp add: c)
qed

text \<open>
  C1. While the lockout file holds a readable record whose expiry is in the future,
  \<open>guardedFetch\<close> for any request throws the \<open>ApiError\<close> with status 429 that
  carries the remaining seconds (at least one), and the world changes by one console line
  only: no request is issued. The same holds whenever the guard reports locked, and a
  call that issues a request is one where the guard reported not locked.
\<close>

theorem lockout_blocks_guardedFetch:
  "(files w LOCKOUT_FILE = Some (Some lockout) \<and> \<not> read_fails w LOCKOUT_FILE \<and>
    get_prop lockout ''expiry'' = Inr x \<and> ToNumber rt x = Some e \<and> of_int (clock w) < e \<longrightarrow>
      (let r = \<lceil>(e - of_int (clock w)) / 1000\<rceil> in
       0 < r \<and>
       guardedFetch rt req w =
         (Inl (ApiError (Val (JStr (blocked_message (Some r)))) 429 (Some r)),
          w\<lparr>console := console w @ [Blocked (Some r)]\<rparr>))) \<and>
   (isLockedOut rt w = (Inr st, w') \<and> locked st \<longrightarrow>
      fst (guardedFetch rt req w) =
        Inl (ApiError (Val (JStr (blocked_message (remainingSeconds st)))) 429 (remainingSeconds st)) \<and>
      net (snd (guardedFetch rt req w)) = net w) \<and>
   (net (snd (guardedFetch rt req w)) \<noteq> net w \<longrightarrow>
      (\<exists>st'. fst (isLockedOut rt w) = Inr st' \<and> \<not> locked st'))"
proof (intro conjI impI)
  assume h: "files w LOCKOUT_FILE = Some (Some lockout) \<and> \<not> read_fails w LOCKOUT_FILE \<and>
    get_prop lockout ''expiry'' = Inr x \<and> ToNumber rt x = Some e \<and> of_int (clock w) < e"
  then have l: "isLockedOut rt w =
     (Inr \<lparr>locked = True, remainingSeconds = Some \<lceil>(e - of_int (clock w)) / 1000\<rceil>\<rparr>, w)"
    by (simp add: isLockedOut_locked)
  from h have "0 < (e - of_int (clock w)) / 1000"
    by simp
  then have "0 < \<lceil>(e - of_int (clock w)) / 1000\<rceil>"
    by (simp only: zero_less_ceiling)
  then show "let r = \<lceil>(e - of_int (clock w)) / 1000\<rceil> in
       0 < r \<and>
       guardedFetch rt req w =
         (Inl (ApiError (Val (JStr (blocked_message (Some r)))) 429 (Some r)),
          w\<lparr>console := console w @ [Blocked (Some r)]\<rparr>)"
    using guardedFetch_locked[OF l, of req] by (simp add: Let_def)
next
  assume h: "isLockedOut rt w = (Inr st, w') \<and> locked st"
  then show "fst (guardedFetch rt req w) =
        Inl (ApiError (Val (JStr (blocked_message (remainingSeconds st)))) 429 (remainingSeconds st))"
    using guardedFetch_locked[of rt w st w' req] by simp
  from h show "net (snd (guardedFetch rt req w)) = net w"
    using guardedFetch_locked[of rt w st w' req] by simp
next
  assume n: "net (snd (guardedFetch rt req w)) \<noteq> net w"
  obtain st' where s: "fst (isLockedOut rt w) = Inr st'"
    using isLockedOut_returns by blast
  then have i: "isLockedOut rt w = (Inr st', snd (isLockedOut rt w))"
    by (metis prod.collapse)
  have "\<not> locked st'"
  proof
    assume "locked st'"
    then have "net (snd (guardedFetch rt req w)) = net w"
      using guardedFetch_locked[OF i, of req] by simp
    with n show False by simp
  qed
  with s show "\<exists>st'. fst (isLockedOut rt w) = Inr st' \<and> \<not> locked st'"
    by blast
qed

lemma show_nat_30: "show_nat 30 = ''30''"
  by (simp add: show_nat.simps[of 30] show_nat.simps[of 3])

theorem lockout_blocks_guardedFetch_witness:
  "guardedFetch demo_runtime (Request (LocationsList ''accounts/1'') ''token'') locked_world =
     (Inl (ApiError (Val (JStr ''Rate limit active. Please wait 30 seconds.'')) 429 (Some 30)),
      locked_world\<lparr>console := [Blocked (Some 30)]\<rparr>) \<and>
   net (snd (guardedFetch demo_runtime (Request (LocationsList ''accounts/1'') ''token'') locked_world)) = [] \<and>
   net (snd (guardedFetch demo_runtime (Request AccountsList ''token'') demo_world)) = [Request AccountsList ''token''] \<and>
   (\<exists>st. fst (isLockedOut demo_runtime demo_world) = Inr st \<and> \<not> locked st)"
proof -
  let ?req = "Request (LocationsList ''accounts/1'') ''token''"
  let ?lock = "JObj [(''expiry'', JNum 31000), (''setAt'', JStr ''x'')]"
  have h: "files locked_world LOCKOUT_FILE = Some (Some ?lock) \<and>
      \<not> read_fails locked_world LOCKOUT_FILE \<and>
      get_prop ?lock ''expiry'' = Inr (Val (JNum 31000)) \<and>
      ToNumber demo_runtime (Val (JNum 31000)) = Some 31000 \<and>
      of_int (clock locked_world) < (31000::rat)"
    by (simp add: locked_world_def demo_world_def)
  have l: "isLockedOut demo_runtime locked_world =
      (Inr \<lparr>locked = True, remainingSeconds = Some 30\<rparr>, locked_world)"
    using isLockedOut_locked[of locked_world ?lock "Val (JNum 31000)" demo_runtime 31000] h
    by (simp add: locked_world_def demo_world_def)
  have o: "isLockedOut demo_runtime demo_world =
      (Inr \<lparr>locked = False, remainingSeconds = Some 0\<rparr>, demo_world)"
    by (rule isLockedOut_absent) (simp add: demo_world_def)
  have n: "net (snd (guardedFetch demo_runtime (Request AccountsList ''token'') demo_world)) =
      [Request AccountsList ''token'']"
    using guardedFetch_open_net[OF o, of "Request AccountsList ''token''"] by (simp add: demo_world_def)
  have c: "clock locked_world = 1000" "console locked_world = []" "net locked_world = []"
    by (simp_all add: locked_world_def demo_world_def)
  note t1 = lockout_blocks_guardedFetch[where w = locked_world and lockout = ?lock
      and x = "Val (JNum 31000)" and rt = demo_runtime and e = 31000 and req = ?req
      and st = "\<lparr>locked = True, remainingSeconds = Some 30\<rparr>" and w' = locked_world]
  note t2 = lockout_blocks_guardedFetch[where w = demo_world and rt = demo_runtime
      and req = "Request AccountsList ''token''"]
  have "guardedFetch demo_runtime ?req locked_world =
     (Inl (ApiError (Val (JStr ''Rate limit active. Please wait 30 seconds.'')) 429 (Some 30)),
      locked_world\<lparr>console := [Blocked (Some 30)]\<rparr>)"
    using t1 h by (simp add: Let_def c blocked_message_def show_number_def show_nat_30)
  moreover have "net (snd (guardedFetch demo_runtime ?req locked_world)) = []"
    using t1 l by (simp add: c)
  moreover have "\<exists>st. fst (isLockedOut demo_runtime demo_world) = Inr st \<and> \<not> locked st"
    using t2 n by (simp add: demo_world_def)
  ultimately show ?thesis
    using n by simp
qed

text \<open>
  C5. With a readable lockout record that can be deleted: a check at or after the expiry
  deletes the record and reports not locked, and the guarded call made then (or right
  after such a check) issues its request; a check before the expiry leaves the world as
  it is and the guarded call issues nothing.
\<close>

theorem lockout_recovers_on_first_check:
  assumes "files w LOCKOUT_FILE = Some (Some lockout)"
    and "\<not> read_fails w LOCKOUT_FILE"
    and "get_prop lockout ''expiry'' = Inr x"
    and "ToNumber rt x = Some e"
    and "\<not> unlink_fails w LOCKOUT_FILE"
  shows "(e \<le> of_int (clock w) \<longrightarrow>
            isLockedOut rt w =
              (Inr \<lparr>locked = False, remainingSeconds = Some 0\<rparr>,
               w\<lparr>files := (files w)(LOCKOUT_FILE := None)\<rparr>) \<and>
            net (snd (guardedFetch rt req w)) = net w @ [req] \<and>
            net (snd (guardedFetch rt req (snd (isLockedOut rt w)))) = net w @ [req]) \<and>
         (of_int (clock w) < e \<longrightarrow>
            snd (isLockedOut rt w) = w \<and> net (snd (guardedFetch rt req w)) = net w)"
proof (intro conjI impI)
  assume p: "e \<le> of_int (clock w)"
  let ?w' = "w\<lparr>files := (files w)(LOCKOUT_FILE := None)\<rparr>"
  show i: "isLockedOut rt w = (Inr \<lparr>locked = False, remainingSeconds = Some 0\<rparr>, ?w')"
    using isLockedOut_expired[OF assms(1-4) p assms(5)] .
  show "net (snd (guardedFetch rt req w)) = net w @ [req]"
    using guardedFetch_open_net[OF i] by simp
  have "isLockedOut rt ?w' = (Inr \<lparr>locked = False, remainingSeconds = Some 0\<rparr>, ?w')"
    by (rule isLockedOut_absent) simp
  then show "net (snd (guardedFetch rt req (snd (isLockedOut rt w)))) = net w @ [req]"
    using guardedFetch_open_net[of rt ?w' _ ?w' req] i by simp
next
  assume p: "of_int (clock w) < e"
  have l: "isLockedOut rt w =
     (Inr \<lparr>locked = True, remainingSeconds = Some \<lceil>(e - of_int (clock w)) / 1000\<rceil>\<rparr>, w)"
    using isLockedOut_locked[OF assms(1-4) p] .
  then show "snd (isLockedOut rt w) = w" by simp
  show "net (snd (guardedFetch rt req w)) = net w"
    using guardedFetch_locked[OF l, of req] by simp
qed

theorem lockout_recovers_on_first_check_witness:
  "isLockedOut demo_runtime (locked_world\<lparr>clock := 31000\<rparr>) =
     (Inr \<lparr>locked = False, remainingSeconds = Some 0\<rparr>,
      locked_world\<lparr>clock := 31000, files := Map.empty\<rparr>) \<and>
   net (snd (guardedFetch demo_runtime (Request AccountsList ''token'') (locked_world\<lparr>clock := 31000\<rparr>))) =
     [Request AccountsList ''token''] \<and>
   snd (isLockedOut demo_runtime (locked_world\<lparr>clock := 30999\<rparr>)) = locked_world\<lparr>clock := 30999\<rparr> \<and>
   net (snd (guardedFetch demo_runtime (Request AccountsList ''token'') (locked_world\<lparr>clock := 30999\<rparr>))) = []"
proof -
  let ?lock = "JObj [(''expiry'', JNum 31000), (''setAt'', JStr ''x'')]"
  have h: "files (locked_world\<lparr>clock := t\<rparr>) LOCKOUT_FILE = Some (Some ?lock)"
    "\<not> read_fails (locked_world\<lparr>clock := t\<rparr>) LOCKOUT_FILE"
    "get_prop ?lock ''expiry'' = Inr (Val (JNum 31000))"
    "ToNumber demo_runtime (Val (JNum 31000)) = Some 31000"
    "\<not> unlink_fails (locked_world\<lparr>clock := t\<rparr>) LOCKOUT_FILE" for t
    by (simp_all add: locked_world_def demo_world_def)
  have f: "(files locked_world)(LOCKOUT_FILE := None) = Map.empty" "net locked_world = []"
    by (simp_all add: locked_world_def demo_world_def)
  show ?thesis
    using lockout_recovers_on_first_check[OF h, of 31000 "Request AccountsList ''token''"]
      lockout_recovers_on_first_check[OF h, of 30999 "Request AccountsList ''token''"]
    by (simp add: f)
qed

text \<open>
  C2 (amended). When the guard is open and the upstream answers 429 with a body that is
  not the JSON \<open>null\<close>, \<open>guardedFetch\<close> runs \<open>setLockout\<close> at the time the
  response arrived and throws the \<open>ApiError\<close> with status 429 and \<open>retryAfter\<close> 60,
  whatever the response says. Its message is the body's \<open>error.message\<close> when that
  value is truthy, and the fixed text otherwise (no JSON body, no such member, or a falsy
  one such as the empty string). On a storage that takes the write, the lockout file then
  holds the record whose expiry is that time plus 60000.
\<close>

theorem quota_response_trips_lockout:
  assumes "isLockedOut rt w = (Inr st, w1)"
    and "\<not> locked st"
    and "upstream w1 req = Some res"
    and "status res = 429"
    and "body res \<noteq> Some JNull"
  shows "(let w2 = w1\<lparr>clock := clock w1 + int (latency w1), net := net w1 @ [req]\<rparr>;
              m = (case body res of None \<Rightarrow> Undefined
                   | Some b \<Rightarrow> opt_chain (opt_chain (Val b) ''error'') ''message'')
          in guardedFetch rt req w =
               (Inl (ApiError (if truthy m then m
                               else Val (JStr ''Rate limit exceeded. Please wait 60 seconds.''))
                       429 (Some 60)),
                snd (setLockout rt w2)) \<and>
             ((cache_dir_exists w2 \<or> \<not> mkdir_fails w2) \<and> \<not> write_fails w2 LOCKOUT_FILE \<longrightarrow>
                files (snd (setLockout rt w2)) LOCKOUT_FILE =
                  Some (Some (JObj [(''expiry'', JNum (of_int (clock w2 + 60000))),
                                    (''setAt'', JStr (toISOString rt (clock w2)))]))))"
proof -
  let ?w2 = "w1\<lparr>clock := clock w1 + int (latency w1), net := net w1 @ [req]\<rparr>"
  have "files (snd (setLockout rt ?w2)) LOCKOUT_FILE =
      Some (Some (JObj [(''expiry'', JNum (of_int (clock ?w2 + 60000))),
                        (''setAt'', JStr (toISOString rt (clock ?w2)))]))"
    if "(cache_dir_exists ?w2 \<or> \<not> mkdir_fails ?w2) \<and> \<not> write_fails ?w2 LOCKOUT_FILE"
    using that setLockout_writes[of ?w2 rt] by (simp add: lockout_entry_def LOCKOUT_TTL_def)
  then show ?thesis
    using guardedFetch_429[OF assms] by (simp add: Let_def)
qed

lemma demo_open:
  "isLockedOut demo_runtime (quota_world b) =
     (Inr \<lparr>locked = False, remainingSeconds = Some 0\<rparr>, quota_world b)"
  by (rule isLockedOut_absent) (simp add: quota_world_def demo_world_def)

theorem quota_response_trips_lockout_witness:
  "fst (guardedFetch demo_runtime (Request AccountsList ''token'')
          (quota_world (Some (JObj [(''error'', JObj [(''message'', JStr ''Quota exceeded'')])])))) =
     Inl (ApiError (Val (JStr ''Quota exceeded'')) 429 (Some 60)) \<and>
   fst (guardedFetch demo_runtime (Request AccountsList ''token'') (quota_world None)) =
     Inl (ApiError (Val (JStr ''Rate limit exceeded. Please wait 60 seconds.'')) 429 (Some 60)) \<and>
   files (snd (guardedFetch demo_runtime (Request AccountsList ''token'') (quota_world None)))
       LOCKOUT_FILE =
     Some (Some (JObj [(''expiry'', JNum 61005), (''setAt'', JStr ''1970-01-01T00:00:01.000Z'')]))"
proof -
  let ?b = "Some (JObj [(''error'', JObj [(''message'', JStr ''Quota exceeded'')])])"
  let ?req = "Request AccountsList ''token''"
  have u: "upstream (quota_world b) ?req = Some (Response 429 b)" for b
    by (simp add: quota_world_def)
  have c: "clock (quota_world b) = 1000" "latency (quota_world b) = 5"
    "\<not> mkdir_fails (quota_world b)" "\<not> write_fails (quota_world b) LOCKOUT_FILE" for b
    by (simp_all add: quota_world_def demo_world_def)
  show ?thesis
    using quota_response_trips_lockout[OF demo_open _ u, of ?b]
      quota_response_trips_lockout[OF demo_open _ u, of None]
    by (simp add: Let_def c demo_runtime_def)
qed

lemma guardedFetch_429_null:
  assumes "isLockedOut rt w = (Inr st, w1)" "\<not> locked st"
    "upstream w1 req = Some res" "status res = 429" "body res = Some JNull"
  shows "fst (guardedFetch rt req w) = Inl TypeError"
proof -
  let ?w2 = "w1\<lparr>clock := clock w1 + int (latency w1), net := net w1 @ [req]\<rparr>"
  obtain w3 where s: "setLockout rt ?w2 = (Inr (), w3)"
    using setLockout_result[of rt ?w2] by (metis prod.collapse)
  show ?thesis
    using assms s
    by (simp add: guardedFetch_def bind_def fetch_def Let_def throw_def lift_def res_json_def)
qed

text \<open>
  C2 as stated fails: a body whose \<open>error.message\<close> is present and empty gives the
  fixed text, not that message; and the body \<open>null\<close> gives a \<open>TypeError\<close> in place of
  the \<open>ApiError\<close>.
\<close>

theorem quota_message_counterexample:
  "fst (guardedFetch demo_runtime (Request AccountsList ''token'')
          (quota_world (Some (JObj [(''error'', JObj [(''message'', JStr [])])])))) =
     Inl (ApiError (Val (JStr ''Rate limit exceeded. Please wait 60 seconds.'')) 429 (Some 60)) \<and>
   fst (guardedFetch demo_runtime (Request AccountsList ''token'') (quota_world (Some JNull))) =
     Inl TypeError"
proof -
  let ?req = "Request AccountsList ''token''"
  have u: "upstream (quota_world b) ?req = Some (Response 429 b)" for b
    by (simp add: quota_world_def)
  have a: "fst (guardedFetch demo_runtime ?req
          (quota_world (Some (JObj [(''error'', JObj [(''message'', JStr [])])])))) =
     Inl (ApiError (Val (JStr ''Rate limit exceeded. Please wait 60 seconds.'')) 429 (Some 60))"
    using guardedFetch_429[OF demo_open _ u] by (simp add: Let_def)
  have b: "fst (guardedFetch demo_runtime ?req (quota_world (Some JNull))) = Inl TypeError"
    using guardedFetch_429_null[OF demo_open _ u] by simp
  from a b show ?thesis by simp
qed

lemma cache_path_not_lockout:
  assumes "safe_char c" "c \<noteq> CHR ''_''"
  shows "getCacheFilePath (c # cs) \<noteq> LOCKOUT_FILE"
  using assms by (simp add: getCacheFilePath_def LOCKOUT_FILE_def sanitize_def)

lemma fetcher_paths_not_lockout:
  "getCacheFilePath accountsKey \<noteq> LOCKOUT_FILE"
  "getCacheFilePath (locationsKey accountId) \<noteq> LOCKOUT_FILE"
  "getCacheFilePath (reviewsKey accountId locationId pageToken) \<noteq> LOCKOUT_FILE"
  by (simp_all add: accountsKey_def locationsKey_def reviewsKey_def cache_path_not_lockout
      safe_char_def)

lemma warm_locked_fresh: "holds_fresh (warm_locked_world key d) key (Val d) 601000"
  by (simp add: holds_fresh_def warm_locked_world_def locked_world_def demo_world_def)

lemma warm_locked_tripped:
  assumes "getCacheFilePath key \<noteq> LOCKOUT_FILE"
  shows "tripped demo_runtime (warm_locked_world key d)"
proof -
  let ?lock = "JObj [(''expiry'', JNum 31000), (''setAt'', JStr ''x'')]"
  have "isLockedOut demo_runtime (warm_locked_world key d) =
      (Inr \<lparr>locked = True, remainingSeconds = Some 30\<rparr>, warm_locked_world key d)"
    using assms
      isLockedOut_locked[where w = "warm_locked_world key d" and lockout = ?lock
        and x = "Val (JNum 31000)" and rt = demo_runtime and e = 31000]
    by (simp add: warm_locked_world_def locked_world_def demo_world_def)
  then show ?thesis by (simp add: tripped_def)
qed

lemma warm_locked_quiet: "console (warm_locked_world key d) = []" "net (warm_locked_world key d) = []"
  by (simp_all add: warm_locked_world_def locked_world_def demo_world_def)

text \<open>
  C6 (amended). If the file of the derived key holds a fresh, readable entry whose payload
  is truthy, each fetcher returns that payload and changes nothing but one console line:
  the lockout file stays as it is and no request is issued, whatever the state of the
  lockout.
\<close>

theorem fresh_truthy_hit_bypasses_guard:
  assumes "truthy v"
  shows "(holds_fresh w accountsKey v e \<longrightarrow>
            fetchAccounts rt accessToken w = (Inr v, w\<lparr>console := console w @ [CacheHit accountsKey]\<rparr>)) \<and>
         (holds_fresh w (locationsKey accountId) v e \<longrightarrow>
            fetchLocations rt accessToken accountId w =
              (Inr v, w\<lparr>console := console w @ [CacheHit (locationsKey accountId)]\<rparr>)) \<and>
         (holds_fresh w (reviewsKey accountId locationId pageToken) v e \<longrightarrow>
            fetchReviews rt accessToken accountId locationId pageToken w =
              (Inr v, w\<lparr>console := console w @ [CacheHit (reviewsKey accountId locationId pageToken)]\<rparr>))"
  using assms
  by (simp add: fetchAccounts_def fetchLocations_def fetchReviews_def fetchResource_hit)

theorem fresh_truthy_hit_bypasses_guard_witness:
  "tripped demo_runtime (warm_locked_world accountsKey (JObj [(''accounts'', JArr [])])) \<and>
   fetchAccounts demo_runtime ''token'' (warm_locked_world accountsKey (JObj [(''accounts'', JArr [])])) =
     (Inr (Val (JObj [(''accounts'', JArr [])])),
      (warm_locked_world accountsKey (JObj [(''accounts'', JArr [])]))\<lparr>console := [CacheHit accountsKey]\<rparr>) \<and>
   fst (fetchLocations demo_runtime ''token'' ''accounts/1''
          (warm_locked_world (locationsKey ''accounts/1'') (JStr ''cached''))) = Inr (Val (JStr ''cached'')) \<and>
   fst (fetchReviews demo_runtime ''token'' ''accounts/1'' ''locations/2'' (Some ''page2'')
          (warm_locked_world (reviewsKey ''accounts/1'' ''locations/2'' (Some ''page2'')) (JNum 5))) =
     Inr (Val (JNum 5))"
proof -
  let ?a = "JObj [(''accounts'', JArr [])]"
  let ?rk = "reviewsKey ''accounts/1'' ''locations/2'' (Some ''page2'')"
  have 1: "fetchAccounts demo_runtime ''token'' (warm_locked_world accountsKey ?a) =
      (Inr (Val ?a), (warm_locked_world accountsKey ?a)\<lparr>console := [CacheHit accountsKey]\<rparr>)"
    using fresh_truthy_hit_bypasses_guard[where v = "Val ?a" and w = "warm_locked_world accountsKey ?a"
        and e = 601000 and rt = demo_runtime and accessToken = "''token''"
        and accountId = "[]" and locationId = "[]" and pageToken = None]
      warm_locked_fresh[of accountsKey ?a]
    by (simp add: warm_locked_quiet)
  have 2: "fst (fetchLocations demo_runtime ''token'' ''accounts/1''
          (warm_locked_world (locationsKey ''accounts/1'') (JStr ''cached''))) = Inr (Val (JStr ''cached''))"
    using fresh_truthy_hit_bypasses_guard[where v = "Val (JStr ''cached'')"
        and w = "warm_locked_world (locationsKey ''accounts/1'') (JStr ''cached'')"
        and e = 601000 and rt = demo_runtime and accessToken = "''token''"
        and accountId = "''accounts/1''" and locationId = "[]" and pageToken = None]
      warm_locked_fresh[of "locationsKey ''accounts/1''" "JStr ''cached''"]
    by simp
  have 3: "fst (fetchReviews demo_runtime ''token'' ''accounts/1'' ''locations/2'' (Some ''page2'')
          (warm_locked_world ?rk (JNum 5))) = Inr (Val (JNum 5))"
    using fresh_truthy_hit_bypasses_guard[where v = "Val (JNum 5)"
        and w = "warm_locked_world ?rk (JNum 5)"
        and e = 601000 and rt = demo_runtime and accessToken = "''token''"
        and accountId = "''accounts/1''" and locationId = "''locations/2''" and pageToken = "Some ''page2''"]
      warm_locked_fresh[of ?rk "JNum 5"]
    by simp
  from 1 2 3 show ?thesis
    using warm_locked_tripped[OF fetcher_paths_not_lockout(1), of ?a] by simp
qed

text \<open>
  C6 as stated fails: with a fresh entry whose payload is \<open>null\<close> and the lockout
  tripped, \<open>fetchAccounts\<close> does not return the cached payload; it goes to the guard and
  throws the 429 error.
\<close>

theorem fresh_falsy_entry_counterexample:
  "holds_fresh (warm_locked_world accountsKey JNull) accountsKey (Val JNull) 601000 \<and>
   fst (fetchAccounts demo_runtime ''token'' (warm_locked_world accountsKey JNull)) =
     Inl (ApiError (Val (JStr ''Rate limit active. Please wait 30 seconds.'')) 429 (Some 30))"
proof -
  let ?w = "warm_locked_world accountsKey JNull"
  let ?w1 = "?w\<lparr>console := console ?w @ [CacheHit accountsKey]\<rparr>"
  let ?lock = "JObj [(''expiry'', JNum 31000), (''setAt'', JStr ''x'')]"
  have m: "fetchAccounts demo_runtime ''token'' ?w =
      fetchOnMiss demo_runtime accountsKey (Request AccountsList ''token'') ''Failed to fetch accounts'' ?w1"
    using fetchResource_falsy[OF warm_locked_fresh[of accountsKey JNull]] by (simp add: fetchAccounts_def)
  have l: "isLockedOut demo_runtime ?w1 = (Inr \<lparr>locked = True, remainingSeconds = Some 30\<rparr>, ?w1)"
    using fetcher_paths_not_lockout(1)
      isLockedOut_locked[where w = ?w1 and lockout = ?lock and x = "Val (JNum 31000)"
        and rt = demo_runtime and e = 31000]
    by (simp add: warm_locked_world_def locked_world_def demo_world_def)
  have "fst (fetchOnMiss demo_runtime accountsKey (Request AccountsList ''token'') ''Failed to fetch accounts'' ?w1) =
      Inl (ApiError (Val (JStr ''Rate limit active. Please wait 30 seconds.'')) 429 (Some 30))"
    using guardedFetch_locked[OF l, of "Request AccountsList ''token''"]
    by (simp add: fetchOnMiss_def bind_def blocked_message_def show_number_def show_nat_30)
  with m warm_locked_fresh show ?thesis by simp
qed

text \<open>
  C10. If the file of the derived key holds a fresh, readable entry whose payload is
  \<open>null\<close>, \<open>0\<close>, the empty string or \<open>false\<close>, each fetcher goes on as on a miss,
  from the world with the one console line of the read: under a tripped lockout it throws
  the 429 error and issues no request, and otherwise it issues its request.
\<close>

theorem falsy_cached_payload_is_a_miss:
  assumes "d \<in> {JNull, JNum 0, JStr [], JBool False}"
  shows "(holds_fresh w accountsKey (Val d) e \<longrightarrow>
            fetchAccounts rt accessToken w =
              fetchOnMiss rt accountsKey (Request AccountsList accessToken) ''Failed to fetch accounts''
                (w\<lparr>console := console w @ [CacheHit accountsKey]\<rparr>) \<and>
            (tripped rt w \<longrightarrow>
               (\<exists>m r. fst (fetchAccounts rt accessToken w) = Inl (ApiError m 429 r)) \<and>
               net (snd (fetchAccounts rt accessToken w)) = net w) \<and>
            (\<not> tripped rt w \<longrightarrow>
               net (snd (fetchAccounts rt accessToken w)) = net w @ [Request AccountsList accessToken])) \<and>
         (holds_fresh w (locationsKey accountId) (Val d) e \<longrightarrow>
            fetchLocations rt accessToken accountId w =
              fetchOnMiss rt (locationsKey accountId) (Request (LocationsList accountId) accessToken)
                ''Failed to fetch locations''
                (w\<lparr>console := console w @ [CacheHit (locationsKey accountId)]\<rparr>) \<and>
            (tripped rt w \<longrightarrow>
               (\<exists>m r. fst (fetchLocations rt accessToken accountId w) = Inl (ApiError m 429 r)) \<and>
               net (snd (fetchLocations rt accessToken accountId w)) = net w) \<and>
            (\<not> tripped rt w \<longrightarrow>
               net (snd (fetchLocations rt accessToken accountId w)) =
                 net w @ [Request (LocationsList accountId) accessToken])) \<and>
         (holds_fresh w (reviewsKey accountId locationId pageToken) (Val d) e \<longrightarrow>
            fetchReviews rt accessToken accountId locationId pageToken w =
              fetchOnMiss rt (reviewsKey accountId locationId pageToken)
                (Request (ReviewsList accountId locationId (cursor pageToken)) accessToken)
                ''Failed to fetch reviews''
                (w\<lparr>console := console w @ [CacheHit (reviewsKey accountId locationId pageToken)]\<rparr>) \<and>
            (tripped rt w \<longrightarrow>
               (\<exists>m r. fst (fetchReviews rt accessToken accountId locationId pageToken w) =
                  Inl (ApiError m 429 r)) \<and>
               net (snd (fetchReviews rt accessToken accountId locationId pageToken w)) = net w) \<and>
            (\<not> tripped rt w \<longrightarrow>
               net (snd (fetchReviews rt accessToken accountId locationId pageToken w)) =
                 net w @ [Request (ReviewsList accountId locationId (cursor pageToken)) accessToken]))"
proof -
  have f: "\<not> truthy (Val d)"
    using assms by auto
  have g: "fetchResource rt key req msg w =
        fetchOnMiss rt key req msg (w\<lparr>console := console w @ [CacheHit key]\<rparr>) \<and>
      (tripped rt w \<longrightarrow>
         (\<exists>m r. fst (fetchResource rt key req msg w) = Inl (ApiError m 429 r)) \<and>
         net (snd (fetchResource rt key req msg w)) = net w) \<and>
      (\<not> tripped rt w \<longrightarrow> net (snd (fetchResource rt key req msg w)) = net w @ [req])"
    if h: "holds_fresh w key (Val d) e" for key req msg
  proof -
    let ?w1 = "w\<lparr>console := console w @ [CacheHit key]\<rparr>"
    have m: "fetchResource rt key req msg w = fetchOnMiss rt key req msg ?w1"
      using fetchResource_falsy[OF h f] .
    have t: "tripped rt ?w1 = tripped rt w"
      by (rule tripped_console)
    have "(\<exists>m r. fst (fetchOnMiss rt key req msg ?w1) = Inl (ApiError m 429 r)) \<and>
        net (snd (fetchOnMiss rt key req msg ?w1)) = net w" if "tripped rt w"
    proof -
      from that t have "tripped rt ?w1" by simp
      from fetchOnMiss_tripped[OF this, of key req msg] obtain r where
        "fetchOnMiss rt key req msg ?w1 =
           (Inl (ApiError (Val (JStr (blocked_message r))) 429 r),
            ?w1\<lparr>console := console ?w1 @ [Blocked r]\<rparr>)"
        by blast
      then show ?thesis by simp
    qed
    moreover have "net (snd (fetchOnMiss rt key req msg ?w1)) = net w @ [req]" if "\<not> tripped rt w"
    proof -
      from that t have "\<not> tripped rt ?w1" by simp
      from fetchOnMiss_not_tripped[OF this, of key req msg] show ?thesis by simp
    qed
    ultimately show ?thesis
      using m by simp
  qed
  show ?thesis
    unfolding fetchAccounts_def fetchLocations_def fetchReviews_def
    using g by blast
qed

theorem falsy_cached_payload_is_a_miss_witness:
  "holds_fresh (warm_locked_world accountsKey (JNum 0)) accountsKey (Val (JNum 0)) 601000 \<and>
   tripped demo_runtime (warm_locked_world accountsKey (JNum 0)) \<and>
   (\<exists>m r. fst (fetchAccounts demo_runtime ''token'' (warm_locked_world accountsKey (JNum 0))) = Inl (ApiError m 429 r)) \<and>
   net (snd (fetchAccounts demo_runtime ''token'' (warm_locked_world accountsKey (JNum 0)))) = []"
proof -
  let ?w = "warm_locked_world accountsKey (JNum 0)"
  have n: "net ?w = []"
    by (rule warm_locked_quiet)
  have h: "holds_fresh ?w accountsKey (Val (JNum 0)) 601000"
    by (rule warm_locked_fresh)
  have t: "tripped demo_runtime ?w"
    by (rule warm_locked_tripped[OF fetcher_paths_not_lockout(1)])
  have "(\<exists>m r. fst (fetchAccounts demo_runtime ''token'' ?w) = Inl (ApiError m 429 r)) \<and>
      net (snd (fetchAccounts demo_runtime ''token'' ?w)) = net ?w"
    using falsy_cached_payload_is_a_miss[where d = "JNum 0" and w = ?w
        and e = 601000 and rt = demo_runtime and accessToken = "''token''"
        and accountId = "[]" and locationId = "[]" and pageToken = None] h t
    by blast
  with h t n show ?thesis by simp
qed

lemma setCache_write_fault:
  assumes "(\<not> cache_dir_exists w \<and> mkdir_fails w) \<or> write_fails w (getCacheFilePath k)"
  shows "fst (setCache k v ttl w) = Inr () \<and>
     console (snd (setCache k v ttl w)) = console w @ [CacheWriteError IoError] \<and>
     files (snd (setCache k v ttl w)) = files w"
  using assms by (auto simp: setCache_def setCache_try_def js_defs Let_def)

lemma setLockout_write_fault:
  assumes "(\<not> cache_dir_exists w \<and> mkdir_fails w) \<or> write_fails w LOCKOUT_FILE"
  shows "fst (setLockout rt w) = Inr () \<and>
     console (snd (setLockout rt w)) = console w @ [LockoutWriteError IoError] \<and>
     files (snd (setLockout rt w)) = files w"
  using assms by (auto simp: setLockout_def setLockout_try_def js_defs Let_def)

lemma getCached_unlink_fault:
  assumes "files w (getCacheFilePath k) = Some (Some (cache_entry v e))"
    "\<not> read_fails w (getCacheFilePath k)" "e < clock w" "unlink_fails w (getCacheFilePath k)"
  shows "getCached rt k w = (Inr (Val JNull), w)"
  using assms
  by (cases v) (auto simp: getCached_def getCached_try_def js_defs Let_def cache_entry_def js_gt_def)

lemma setCache_returns: "fst (setCache k v ttl w) = Inr ()"
  using setCache_result[of k v ttl w] by (metis prod.collapse)

lemma setLockout_returns: "fst (setLockout rt w) = Inr ()"
  using setLockout_result[of rt w] by (metis prod.collapse)

text \<open>
  C9. In every world, with any faults and any file contents: \<open>getCached\<close> returns and
  does not throw, and returns \<open>null\<close> whenever its body throws, in particular when the
  file cannot be read, is not JSON, or is stale and cannot be deleted; \<open>isLockedOut\<close>
  returns and does not throw, and reports not locked whenever its body throws, in
  particular when the lockout file cannot be read or is not JSON; \<open>setCache\<close> and
  \<open>setLockout\<close> return and do not throw, and a failed \<open>mkdir\<close> or write leaves the
  files as they were and one line on the console. The callers go on: a fetcher whose
  lookup missed and whose upstream answered 2xx with a JSON body returns that body, and a
  429 still becomes the \<open>ApiError\<close>, whether or not the write went through.
\<close>

theorem storage_failures_never_surface:
  "(\<exists>r. fst (getCached rt k w) = Inr r) \<and>
   (fst (getCached_try rt k w) = Inl e1 \<longrightarrow> fst (getCached rt k w) = Inr (Val JNull)) \<and>
   (files w (getCacheFilePath k) = Some c1 \<and> (read_fails w (getCacheFilePath k) \<or> c1 = None) \<longrightarrow>
      getCached rt k w = (Inr (Val JNull), w)) \<and>
   (files w (getCacheFilePath k) = Some (Some (cache_entry v x)) \<and> \<not> read_fails w (getCacheFilePath k) \<and>
    x < clock w \<and> unlink_fails w (getCacheFilePath k) \<longrightarrow>
      getCached rt k w = (Inr (Val JNull), w)) \<and>
   (\<exists>s. fst (isLockedOut rt w) = Inr s) \<and>
   (fst (isLockedOut_try rt w) = Inl e2 \<longrightarrow>
      fst (isLockedOut rt w) = Inr \<lparr>locked = False, remainingSeconds = Some 0\<rparr>) \<and>
   (files w LOCKOUT_FILE = Some c2 \<and> (read_fails w LOCKOUT_FILE \<or> c2 = None) \<longrightarrow>
      isLockedOut rt w = (Inr \<lparr>locked = False, remainingSeconds = Some 0\<rparr>, w)) \<and>
   fst (setCache k v ttl w) = Inr () \<and>
   ((\<not> cache_dir_exists w \<and> mkdir_fails w) \<or> write_fails w (getCacheFilePath k) \<longrightarrow>
      console (snd (setCache k v ttl w)) = console w @ [CacheWriteError IoError] \<and>
      files (snd (setCache k v ttl w)) = files w) \<and>
   fst (setLockout rt w) = Inr () \<and>
   ((\<not> cache_dir_exists w \<and> mkdir_fails w) \<or> write_fails w LOCKOUT_FILE \<longrightarrow>
      console (snd (setLockout rt w)) = console w @ [LockoutWriteError IoError] \<and>
      files (snd (setLockout rt w)) = files w) \<and>
   (getCached rt k w = (Inr c, w1) \<and> \<not> truthy c \<and> isLockedOut rt w1 = (Inr st, w2) \<and> \<not> locked st \<and>
    upstream w2 req = Some res \<and> ok res \<and> body res = Some data \<longrightarrow>
      fst (fetchResource rt k req msg w) = Inr (Val data)) \<and>
   (isLockedOut rt w = (Inr st, w1) \<and> \<not> locked st \<and> upstream w1 req = Some res \<and>
    status res = 429 \<and> body res \<noteq> Some JNull \<longrightarrow>
      (\<exists>m. fst (guardedFetch rt req w) = Inl (ApiError m 429 (Some 60))))"
proof -
  have g1: "\<exists>r. fst (getCached rt k w) = Inr r"
    by (rule getCached_returns)
  have g2: "fst (getCached_try rt k w) = Inl e1 \<longrightarrow> fst (getCached rt k w) = Inr (Val JNull)"
    using getCached_catch by blast
  have g3: "files w (getCacheFilePath k) = Some c1 \<and> (read_fails w (getCacheFilePath k) \<or> c1 = None) \<longrightarrow>
      getCached rt k w = (Inr (Val JNull), w)"
    using getCached_unreadable by blast
  have g4: "files w (getCacheFilePath k) = Some (Some (cache_entry v x)) \<and>
      \<not> read_fails w (getCacheFilePath k) \<and> x < clock w \<and> unlink_fails w (getCacheFilePath k) \<longrightarrow>
      getCached rt k w = (Inr (Val JNull), w)"
    using getCached_unlink_fault by blast
  have l1: "\<exists>s. fst (isLockedOut rt w) = Inr s"
    by (rule isLockedOut_returns)
  have l2: "fst (isLockedOut_try rt w) = Inl e2 \<longrightarrow>
      fst (isLockedOut rt w) = Inr \<lparr>locked = False, remainingSeconds = Some 0\<rparr>"
    using isLockedOut_catch by blast
  have l3: "files w LOCKOUT_FILE = Some c2 \<and> (read_fails w LOCKOUT_FILE \<or> c2 = None) \<longrightarrow>
      isLockedOut rt w = (Inr \<lparr>locked = False, remainingSeconds = Some 0\<rparr>, w)"
    using isLockedOut_unreadable by blast
  have s1: "fst (setCache k v ttl w) = Inr ()"
    by (rule setCache_returns)
  have s2: "(\<not> cache_dir_exists w \<and> mkdir_fails w) \<or> write_fails w (getCacheFilePath k) \<longrightarrow>
      console (snd (setCache k v ttl w)) = console w @ [CacheWriteError IoError] \<and>
      files (snd (setCache k v ttl w)) = files w"
    using setCache_write_fault[of w k v ttl] by blast
  have s3: "fst (setLockout rt w) = Inr ()"
    by (rule setLockout_returns)
  have s4: "(\<not> cache_dir_exists w \<and> mkdir_fails w) \<or> write_fails w LOCKOUT_FILE \<longrightarrow>
      console (snd (setLockout rt w)) = console w @ [LockoutWriteError IoError] \<and>
      files (snd (setLockout rt w)) = files w"
    using setLockout_write_fault[of w rt] by blast
  have f1: "getCached rt k w = (Inr c, w1) \<and> \<not> truthy c \<and> isLockedOut rt w1 = (Inr st, w2) \<and>
      \<not> locked st \<and> upstream w2 req = Some res \<and> ok res \<and> body res = Some data \<longrightarrow>
      fst (fetchResource rt k req msg w) = Inr (Val data)"
    using fetchResource_completes by blast
  have f2: "isLockedOut rt w = (Inr st, w1) \<and> \<not> locked st \<and> upstream w1 req = Some res \<and>
      status res = 429 \<and> body res \<noteq> Some JNull \<longrightarrow>
      (\<exists>m. fst (guardedFetch rt req w) = Inl (ApiError m 429 (Some 60)))"
  proof
    assume h: "isLockedOut rt w = (Inr st, w1) \<and> \<not> locked st \<and> upstream w1 req = Some res \<and>
      status res = 429 \<and> body res \<noteq> Some JNull"
    then show "\<exists>m. fst (guardedFetch rt req w) = Inl (ApiError m 429 (Some 60))"
      using guardedFetch_429[of rt w st w1 req res] by (simp add: Let_def)
  qed
  from g1 g2 g3 g4 l1 l2 l3 s1 s2 s3 s4 f1 f2 show ?thesis
    by (intro conjI)
qed


theorem storage_failures_never_surface_witness:
  "getCached demo_runtime accountsKey broken_world = (Inr (Val JNull), broken_world) \<and>
   isLockedOut demo_runtime broken_world =
     (Inr \<lparr>locked = False, remainingSeconds = Some 0\<rparr>, broken_world) \<and>
   fst (setCache accountsKey (Val (JStr ''x'')) 600000 broken_world) = Inr () \<and>
   console (snd (setCache accountsKey (Val (JStr ''x'')) 600000 broken_world)) = [CacheWriteError IoError] \<and>
   fst (setLockout demo_runtime broken_world) = Inr () \<and>
   console (snd (setLockout demo_runtime broken_world)) = [LockoutWriteError IoError] \<and>
   fst (fetchAccounts demo_runtime ''token'' broken_world) = Inr (Val (JObj [(''accounts'', JArr [])])) \<and>
   getCached demo_runtime accountsKey ((warm_locked_world accountsKey (JNum 5))\<lparr>read_fails := (\<lambda>_. True)\<rparr>) =
     (Inr (Val JNull), (warm_locked_world accountsKey (JNum 5))\<lparr>read_fails := (\<lambda>_. True)\<rparr>) \<and>
   isLockedOut demo_runtime ((warm_locked_world accountsKey (JNum 5))\<lparr>read_fails := (\<lambda>_. True)\<rparr>) =
     (Inr \<lparr>locked = False, remainingSeconds = Some 0\<rparr>,
      (warm_locked_world accountsKey (JNum 5))\<lparr>read_fails := (\<lambda>_. True)\<rparr>) \<and>
   getCached demo_runtime accountsKey
       ((warm_locked_world accountsKey (JNum 5))\<lparr>clock := 700000, unlink_fails := (\<lambda>_. True)\<rparr>) =
     (Inr (Val JNull), (warm_locked_world accountsKey (JNum 5))\<lparr>clock := 700000, unlink_fails := (\<lambda>_. True)\<rparr>) \<and>
   (\<exists>m. fst (guardedFetch demo_runtime (Request AccountsList ''token'')
              ((quota_world None)\<lparr>write_fails := (\<lambda>_. True)\<rparr>)) = Inl (ApiError m 429 (Some 60)))"
proof -
  let ?open = "\<lparr>locked = False, remainingSeconds = Some 0\<rparr>"
  let ?req = "Request AccountsList ''token''"
  let ?accounts = "JObj [(''accounts'', JArr [])]"
  let ?wr = "(warm_locked_world accountsKey (JNum 5))\<lparr>read_fails := (\<lambda>_. True)\<rparr>"
  let ?wu = "(warm_locked_world accountsKey (JNum 5))\<lparr>clock := 700000, unlink_fails := (\<lambda>_. True)\<rparr>"
  let ?wq = "(quota_world None)\<lparr>write_fails := (\<lambda>_. True)\<rparr>"
  note d = fetcher_paths_not_lockout(1)
  have b: "files broken_world (getCacheFilePath accountsKey) = Some None"
    "files broken_world LOCKOUT_FILE = Some None"
    "write_fails broken_world (getCacheFilePath accountsKey)"
    "write_fails broken_world LOCKOUT_FILE"
    "console broken_world = []"
    "upstream broken_world ?req = Some (Response 200 (Some ?accounts))"
    using d by (simp_all add: broken_world_def demo_world_def)
  note A = storage_failures_never_surface[where rt = demo_runtime and k = accountsKey
      and w = broken_world and ?c1.0 = None and ?c2.0 = None and v = "Val (JStr ''x'')"
      and ttl = 600000 and c = "Val JNull" and ?w1.0 = broken_world and st = ?open
      and ?w2.0 = broken_world and req = ?req and res = "Response 200 (Some ?accounts)"
      and data = ?accounts and msg = "''Failed to fetch accounts''"]
  have a1: "getCached demo_runtime accountsKey broken_world = (Inr (Val JNull), broken_world)"
    using A b by blast
  have a2: "isLockedOut demo_runtime broken_world = (Inr ?open, broken_world)"
    using A b by blast
  have a3: "fst (setCache accountsKey (Val (JStr ''x'')) 600000 broken_world) = Inr ()"
    using A by blast
  have a4: "console (snd (setCache accountsKey (Val (JStr ''x'')) 600000 broken_world)) =
      [CacheWriteError IoError]"
    using A b(3,5) by simp
  have a5: "fst (setLockout demo_runtime broken_world) = Inr ()"
    using A by blast
  have a6: "console (snd (setLockout demo_runtime broken_world)) = [LockoutWriteError IoError]"
    using A b(4,5) by simp
  have a7: "fst (fetchAccounts demo_runtime ''token'' broken_world) = Inr (Val ?accounts)"
    using A a1 a2 b(6) by (simp add: fetchAccounts_def ok_def)
  have r: "files ?wr (getCacheFilePath accountsKey) = Some (Some (cache_entry (Val (JNum 5)) 601000))"
    "files ?wr LOCKOUT_FILE = Some (Some (JObj [(''expiry'', JNum 31000), (''setAt'', JStr ''x'')]))"
    "read_fails ?wr (getCacheFilePath accountsKey)" "read_fails ?wr LOCKOUT_FILE"
    using d by (simp_all add: warm_locked_world_def locked_world_def demo_world_def)
  note B = storage_failures_never_surface[where rt = demo_runtime and k = accountsKey and w = ?wr
      and ?c1.0 = "Some (cache_entry (Val (JNum 5)) 601000)"
      and ?c2.0 = "Some (JObj [(''expiry'', JNum 31000), (''setAt'', JStr ''x'')])"]
  have b1: "getCached demo_runtime accountsKey ?wr = (Inr (Val JNull), ?wr)"
    using B r by blast
  have b2: "isLockedOut demo_runtime ?wr = (Inr ?open, ?wr)"
    using B r by blast
  have u: "files ?wu (getCacheFilePath accountsKey) = Some (Some (cache_entry (Val (JNum 5)) 601000))"
    "\<not> read_fails ?wu (getCacheFilePath accountsKey)" "601000 < clock ?wu"
    "unlink_fails ?wu (getCacheFilePath accountsKey)"
    by (simp_all add: warm_locked_world_def locked_world_def demo_world_def)
  have c1: "getCached demo_runtime accountsKey ?wu = (Inr (Val JNull), ?wu)"
    using storage_failures_never_surface[where rt = demo_runtime and k = accountsKey and w = ?wu
        and v = "Val (JNum 5)" and x = 601000] u
    by blast
  have q: "isLockedOut demo_runtime ?wq = (Inr ?open, ?wq)"
    by (rule isLockedOut_absent) (simp add: quota_world_def demo_world_def)
  have q2: "upstream ?wq ?req = Some (Response 429 None)"
    by (simp add: quota_world_def)
  have d1: "\<exists>m. fst (guardedFetch demo_runtime ?req ?wq) = Inl (ApiError m 429 (Some 60))"
    using storage_failures_never_surface[where rt = demo_runtime and w = ?wq and st = ?open
        and ?w1.0 = ?wq and req = ?req and res = "Response 429 None"] q q2
    by simp
  from a1 a2 a3 a4 a5 a6 a7 b1 b2 c1 d1 show ?thesis
    by (intro conjI)
qed

lemma sanitize_append: "sanitize (a @ b) = sanitize a @ sanitize b"
  by (simp add: sanitize_def)

lemma sanitize_slash: "sanitize (slash_to_underscore s) = sanitize s"
  by (induction s) (simp_all add: sanitize_def slash_to_underscore_def safe_char_def)

lemma sanitize_safe: "safe s \<Longrightarrow> sanitize s = s"
  by (induction s) (simp_all add: sanitize_def safe_def)

lemma plain_safe: "plain s \<Longrightarrow> safe s"
  by (induction s) (simp_all add: plain_def safe_def)

lemma plain_no_underscore: "plain s \<Longrightarrow> CHR ''_'' \<notin> set s"
  by (induction s) (auto simp: plain_def)

lemma path_eq_iff: "(getCacheFilePath k = getCacheFilePath k') = (sanitize k = sanitize k')"
  by (simp add: getCacheFilePath_def)

lemma sanitize_Nil: "sanitize [] = []"
  by (simp add: sanitize_def)

lemma sanitize_Cons: "sanitize (c # cs) = (if safe_char c then c else CHR ''_'') # sanitize cs"
  by (simp add: sanitize_def)

lemma sanitize_accountsKey: "sanitize accountsKey = ''accounts''"
  by (simp add: accountsKey_def sanitize_Nil sanitize_Cons safe_char_def)

lemma sanitize_locationsKey: "sanitize (locationsKey a) = ''locations_'' @ sanitize a"
  by (simp add: locationsKey_def sanitize_Cons sanitize_slash safe_char_def)

lemma sanitize_reviewsKey:
  "sanitize (reviewsKey a l p) =
     ''reviews_'' @ sanitize a @ ''_'' @ sanitize l @ ''_'' @ sanitize (token_or_first p)"
  by (simp add: reviewsKey_def sanitize_Cons sanitize_append sanitize_slash safe_char_def)

lemma sanitize_first: "sanitize ''first'' = ''first''"
  by (simp add: sanitize_Nil sanitize_Cons safe_char_def)

lemma token_safe: "safe_token p \<Longrightarrow> sanitize (token_or_first p) = token_or_first p"
  by (auto simp: safe_token_def cursor_def token_or_first_def sanitize_safe sanitize_first
      split: option.splits if_splits)

lemma token_eq_iff:
  "safe_token p \<Longrightarrow> safe_token p' \<Longrightarrow>
     (token_or_first p = token_or_first p') = (cursor p = cursor p')"
  by (auto simp: safe_token_def cursor_def token_or_first_def split: option.splits if_splits)

lemma split_at_first:
  assumes "c \<notin> set xs" "c \<notin> set xs'"
  shows "(xs @ c # ys = xs' @ c # ys') = (xs = xs' \<and> ys = ys')"
  using assms
proof (induction xs arbitrary: xs')
  case Nil
  then show ?case by (cases xs') auto
next
  case (Cons a xs)
  then show ?case by (cases xs') auto
qed

lemma reviews_path_eq_iff:
  assumes "plain x" "plain x'" "plain y" "plain y'" "safe_token p" "safe_token p'"
  shows "(getCacheFilePath (reviewsKey (pa @ x) (pl @ y) p) =
          getCacheFilePath (reviewsKey (pa @ x') (pl @ y') p')) =
         (x = x' \<and> y = y' \<and> cursor p = cursor p')"
proof -
  let ?t = "token_or_first p" and ?t' = "token_or_first p'"
  have u: "CHR ''_'' \<notin> set x" "CHR ''_'' \<notin> set x'" "CHR ''_'' \<notin> set y" "CHR ''_'' \<notin> set y'"
    using assms(1-4) by (simp_all add: plain_no_underscore)
  have s: "sanitize x = x" "sanitize x' = x'" "sanitize y = y" "sanitize y' = y'"
    using assms(1-4) by (simp_all add: plain_safe sanitize_safe)
  have "(getCacheFilePath (reviewsKey (pa @ x) (pl @ y) p) =
         getCacheFilePath (reviewsKey (pa @ x') (pl @ y') p')) =
        (x @ CHR ''_'' # (sanitize pl @ y @ CHR ''_'' # ?t) =
         x' @ CHR ''_'' # (sanitize pl @ y' @ CHR ''_'' # ?t'))"
    by (simp add: path_eq_iff sanitize_reviewsKey sanitize_append s token_safe assms(5,6))
  also have "\<dots> = (x = x' \<and> y @ CHR ''_'' # ?t = y' @ CHR ''_'' # ?t')"
    using u(1,2) by (simp add: split_at_first)
  also have "\<dots> = (x = x' \<and> y = y' \<and> ?t = ?t')"
    using u(3,4) by (simp add: split_at_first)
  also have "\<dots> = (x = x' \<and> y = y' \<and> cursor p = cursor p')"
    by (simp add: token_eq_iff assms(5,6))
  finally show ?thesis .
qed

lemma locations_path_eq_iff:
  assumes "safe u" "safe u'"
  shows "(getCacheFilePath (locationsKey (pa @ u)) = getCacheFilePath (locationsKey (pa @ u'))) =
         (u = u')"
  using assms by (simp add: path_eq_iff sanitize_locationsKey sanitize_append sanitize_safe)

lemma kinds_differ:
  "getCacheFilePath accountsKey \<noteq> getCacheFilePath (locationsKey a)"
  "getCacheFilePath accountsKey \<noteq> getCacheFilePath (reviewsKey a' l p)"
  "getCacheFilePath (locationsKey a) \<noteq> getCacheFilePath (reviewsKey a' l p)"
  by (simp_all add: path_eq_iff sanitize_accountsKey sanitize_locationsKey sanitize_reviewsKey)

lemma key_of_cursor: "cursor p = cursor p' \<Longrightarrow> reviewsKey a l p = reviewsKey a l p'"
  by (auto simp: reviewsKey_def cursor_def token_or_first_def split: option.splits if_splits)


lemma plain_digits: "plain ''1''" "plain ''2''" "plain ''3''"
  by (simp_all add: plain_def safe_char_def)

text \<open>
  C4 (amended). For all parameters: the storage path of a call depends on its parameters
  only, an absent and an empty cursor give the same key, and the three kinds of resource
  never share a path. On a restricted alphabet the key is injective: two reviews calls
  whose account ids share a prefix and differ in a suffix of letters, digits and \<open>-\<close>,
  likewise their location ids, and whose cursors are made of letters, digits, \<open>_\<close> and
  \<open>-\<close> and are not the word \<open>first\<close>, have the same path exactly when they are
  the same request; likewise two locations calls whose account ids share a prefix and
  differ in a suffix of letters, digits, \<open>_\<close> and \<open>-\<close>.
\<close>

theorem cache_key_identity:
  "(cursor q = cursor q' \<longrightarrow> reviewsKey a l q = reviewsKey a l q') \<and>
   getCacheFilePath accountsKey \<noteq> getCacheFilePath (locationsKey b) \<and>
   getCacheFilePath accountsKey \<noteq> getCacheFilePath (reviewsKey a l q) \<and>
   getCacheFilePath (locationsKey b) \<noteq> getCacheFilePath (reviewsKey a l q) \<and>
   (plain x \<and> plain x' \<and> plain y \<and> plain y' \<and> safe_token p \<and> safe_token p' \<longrightarrow>
      (getCacheFilePath (reviewsKey (pa @ x) (pl @ y) p) =
         getCacheFilePath (reviewsKey (pa @ x') (pl @ y') p')) =
        (x = x' \<and> y = y' \<and> cursor p = cursor p')) \<and>
   (safe u \<and> safe u' \<longrightarrow>
      (getCacheFilePath (locationsKey (pa @ u)) = getCacheFilePath (locationsKey (pa @ u'))) =
        (u = u'))"
proof -
  have d: "cursor q = cursor q' \<longrightarrow> reviewsKey a l q = reviewsKey a l q'"
    using key_of_cursor by blast
  have r: "plain x \<and> plain x' \<and> plain y \<and> plain y' \<and> safe_token p \<and> safe_token p' \<longrightarrow>
      (getCacheFilePath (reviewsKey (pa @ x) (pl @ y) p) =
         getCacheFilePath (reviewsKey (pa @ x') (pl @ y') p')) =
        (x = x' \<and> y = y' \<and> cursor p = cursor p')"
    using reviews_path_eq_iff[of x x' y y' p p' pa pl] by blast
  have o: "safe u \<and> safe u' \<longrightarrow>
      (getCacheFilePath (locationsKey (pa @ u)) = getCacheFilePath (locationsKey (pa @ u'))) =
        (u = u')"
    using locations_path_eq_iff[of u u' pa] by blast
  from d kinds_differ(1)[of b] kinds_differ(2)[of a l q] kinds_differ(3)[of b a l q] r o
  show ?thesis by (intro conjI)
qed

theorem cache_key_identity_witness:
  "reviewsKey ''accounts/1'' ''locations/2'' (Some []) = reviewsKey ''accounts/1'' ''locations/2'' None \<and>
   getCacheFilePath accountsKey \<noteq> getCacheFilePath (locationsKey ''accounts'') \<and>
   getCacheFilePath accountsKey \<noteq> getCacheFilePath (reviewsKey ''a_b'' ''c'' (Some ''ab+c'')) \<and>
   getCacheFilePath (locationsKey ''reviews'') \<noteq>
     getCacheFilePath (reviewsKey ''a_b'' ''c'' (Some ''first'')) \<and>
   getCacheFilePath (reviewsKey ''accounts/1'' ''locations/2'' None) \<noteq>
     getCacheFilePath (reviewsKey ''accounts/1'' ''locations/3'' None) \<and>
   getCacheFilePath (reviewsKey ''accounts/1'' ''locations/2'' None) \<noteq>
     getCacheFilePath (reviewsKey ''accounts/3'' ''locations/2'' None) \<and>
   getCacheFilePath (reviewsKey ''accounts/1'' ''locations/2'' None) \<noteq>
     getCacheFilePath (reviewsKey ''accounts/1'' ''locations/2'' (Some ''Abc-12_x'')) \<and>
   getCacheFilePath (locationsKey ''accounts/1'') \<noteq> getCacheFilePath (locationsKey ''accounts/2'')"
proof -
  let ?pa = "''accounts/''" and ?pl = "''locations/''"
  have t: "safe_token None" "safe_token (Some ''Abc-12_x'')"
    by (simp_all add: safe_token_def cursor_def safe_def safe_char_def)
  have s: "safe ''1''" "safe ''2''"
    by (simp_all add: plain_safe plain_digits)
  have c: "cursor (Some []) = cursor None" "cursor None \<noteq> cursor (Some ''Abc-12_x'')"
    by (simp_all add: cursor_def)
  have 1: "reviewsKey ''accounts/1'' ''locations/2'' (Some []) = reviewsKey ''accounts/1'' ''locations/2'' None"
    using cache_key_identity[where q = "Some []" and q' = None and a = "''accounts/1''"
        and l = "''locations/2''"] c(1)
    by blast
  have k1: "getCacheFilePath accountsKey \<noteq> getCacheFilePath (locationsKey ''accounts'')"
    using cache_key_identity[where b = "''accounts''"] by blast
  have k2: "getCacheFilePath accountsKey \<noteq> getCacheFilePath (reviewsKey ''a_b'' ''c'' (Some ''ab+c''))"
    using cache_key_identity[where a = "''a_b''" and l = "''c''" and q = "Some ''ab+c''"] by blast
  have k3: "getCacheFilePath (locationsKey ''reviews'') \<noteq>
     getCacheFilePath (reviewsKey ''a_b'' ''c'' (Some ''first''))"
    using cache_key_identity[where b = "''reviews''" and a = "''a_b''" and l = "''c''"
        and q = "Some ''first''"]
    by blast
  have "(getCacheFilePath (reviewsKey (?pa @ ''1'') (?pl @ ''2'') None) =
         getCacheFilePath (reviewsKey (?pa @ ''1'') (?pl @ ''3'') None)) =
        (''1'' = ''1'' \<and> ''2'' = ''3'' \<and> cursor None = cursor None)"
    using cache_key_identity[where pa = ?pa and pl = ?pl and x = "''1''" and x' = "''1''"
        and y = "''2''" and y' = "''3''" and p = None and p' = None] plain_digits t(1)
    by blast
  then have 2: "getCacheFilePath (reviewsKey ''accounts/1'' ''locations/2'' None) \<noteq>
     getCacheFilePath (reviewsKey ''accounts/1'' ''locations/3'' None)"
    by simp
  have "(getCacheFilePath (reviewsKey (?pa @ ''1'') (?pl @ ''2'') None) =
         getCacheFilePath (reviewsKey (?pa @ ''3'') (?pl @ ''2'') None)) =
        (''1'' = ''3'' \<and> ''2'' = ''2'' \<and> cursor None = cursor None)"
    using cache_key_identity[where pa = ?pa and pl = ?pl and x = "''1''" and x' = "''3''"
        and y = "''2''" and y' = "''2''" and p = None and p' = None] plain_digits t(1)
    by blast
  then have 3: "getCacheFilePath (reviewsKey ''accounts/1'' ''locations/2'' None) \<noteq>
     getCacheFilePath (reviewsKey ''accounts/3'' ''locations/2'' None)"
    by simp
  have "(getCacheFilePath (reviewsKey (?pa @ ''1'') (?pl @ ''2'') None) =
         getCacheFilePath (reviewsKey (?pa @ ''1'') (?pl @ ''2'') (Some ''Abc-12_x''))) =
        (''1'' = ''1'' \<and> ''2'' = ''2'' \<and> cursor None = cursor (Some ''Abc-12_x''))"
    using cache_key_identity[where pa = ?pa and pl = ?pl and x = "''1''" and x' = "''1''"
        and y = "''2''" and y' = "''2''" and p = None and p' = "Some ''Abc-12_x''"] plain_digits t
    by blast
  then have 4: "getCacheFilePath (reviewsKey ''accounts/1'' ''locations/2'' None) \<noteq>
     getCacheFilePath (reviewsKey ''accounts/1'' ''locations/2'' (Some ''Abc-12_x''))"
    using c(2) by simp
  have "(getCacheFilePath (locationsKey (?pa @ ''1'')) = getCacheFilePath (locationsKey (?pa @ ''2''))) =
        (''1'' = ''2'')"
    using cache_key_identity[where pa = ?pa and u = "''1''" and u' = "''2''"] s
    by blast
  then have 5: "getCacheFilePath (locationsKey ''accounts/1'') \<noteq> getCacheFilePath (locationsKey ''accounts/2'')"
    by simp
  from 1 k1 k2 k3 2 3 4 5 show ?thesis by (intro conjI)
qed

text \<open>
  C4 as stated fails: three pairs of distinct reviews requests with one storage path. An
  underscore in an id moves the boundary between the ids; the cursor \<open>first\<close> is the
  sentinel of the first page; and two cursors that differ in a character outside the
  class are sanitized to one name.
\<close>

theorem cache_key_collision_counterexample:
  "ReviewsList ''a_b'' ''c'' (cursor None) \<noteq> ReviewsList ''a'' ''b_c'' (cursor None) \<and>
   getCacheFilePath (reviewsKey ''a_b'' ''c'' None) = getCacheFilePath (reviewsKey ''a'' ''b_c'' None) \<and>
   ReviewsList ''accounts/1'' ''locations/2'' (cursor (Some ''first'')) \<noteq>
     ReviewsList ''accounts/1'' ''locations/2'' (cursor None) \<and>
   getCacheFilePath (reviewsKey ''accounts/1'' ''locations/2'' (Some ''first'')) =
     getCacheFilePath (reviewsKey ''accounts/1'' ''locations/2'' None) \<and>
   ReviewsList ''accounts/1'' ''locations/2'' (cursor (Some ''ab+c'')) \<noteq>
     ReviewsList ''accounts/1'' ''locations/2'' (cursor (Some ''ab/c'')) \<and>
   getCacheFilePath (reviewsKey ''accounts/1'' ''locations/2'' (Some ''ab+c'')) =
     getCacheFilePath (reviewsKey ''accounts/1'' ''locations/2'' (Some ''ab/c''))"
proof -
  have 1: "getCacheFilePath (reviewsKey ''a_b'' ''c'' None) = getCacheFilePath (reviewsKey ''a'' ''b_c'' None)"
    by (simp add: reviewsKey_def slash_to_underscore_def token_or_first_def)
  have 2: "getCacheFilePath (reviewsKey ''accounts/1'' ''locations/2'' (Some ''first'')) =
     getCacheFilePath (reviewsKey ''accounts/1'' ''locations/2'' None)"
    by (simp add: reviewsKey_def token_or_first_def)
  have 3: "getCacheFilePath (reviewsKey ''accounts/1'' ''locations/2'' (Some ''ab+c'')) =
     getCacheFilePath (reviewsKey ''accounts/1'' ''locations/2'' (Some ''ab/c''))"
    by (simp add: path_eq_iff sanitize_reviewsKey token_or_first_def sanitize_Cons sanitize_Nil safe_char_def)
  from 1 2 3 show ?thesis by (simp add: cursor_def)
qed

lemmas client_defs = clear_interval_def effect_cleanup_def countdown_effect_def rerender_def

lemma handleQuotaError_state:
  assumes "settled s"
  shows "handleQuotaError r f s =
     s\<lparr>countdown := max r 60, pendingAction := Some f, error := Some QuotaMessage,
       countdownRef := True, timers := 1, cleanup := True\<rparr>"
  using assms by (cases s) (auto simp: handleQuotaError_def client_defs settled_def Let_def)

lemma tick_counting:
  assumes "settled s" "1 < countdown s"
  shows "tick s = s\<lparr>countdown := countdown s - 1\<rparr>"
  using assms by (cases s) (auto simp: tick_def client_defs settled_def Let_def)

lemma tick_fires:
  assumes "settled s" "countdown s = 1" "pendingAction s = Some a"
  shows "tick s =
     s\<lparr>countdown := 0, pendingAction := None, error := None, countdownRef := False,
       timers := 0, cleanup := False, invoked := invoked s @ [a]\<rparr>"
  using assms by (cases s) (auto simp: tick_def client_defs settled_def Let_def)

lemma tick_idle:
  assumes "settled s" "countdown s \<le> 0"
  shows "tick s = s"
  using assms by (auto simp: tick_def settled_def)

lemma settled_countdown: "settled s \<Longrightarrow> 0 < c \<Longrightarrow> 0 < countdown s \<Longrightarrow> settled (s\<lparr>countdown := c\<rparr>)"
  by (simp add: settled_def)

lemma ticks_counting:
  assumes "settled s" "int k < countdown s"
  shows "(tick ^^ k) s = s\<lparr>countdown := countdown s - int k\<rparr>"
  using assms
proof (induction k)
  case 0
  then show ?case by simp
next
  case (Suc k)
  let ?s = "s\<lparr>countdown := countdown s - int k\<rparr>"
  from Suc have e: "(tick ^^ k) s = ?s" by simp
  have "settled ?s" using Suc.prems by (simp add: settled_countdown)
  moreover have "1 < countdown ?s" using Suc.prems by simp
  ultimately have "tick ?s = ?s\<lparr>countdown := countdown ?s - 1\<rparr>"
    by (rule tick_counting)
  with e show ?case by (simp add: algebra_simps)
qed

lemma fired_settled: "settled (fired a s)"
  by (simp add: fired_def settled_def)

lemma ticks_idle: "settled s \<Longrightarrow> countdown s \<le> 0 \<Longrightarrow> (tick ^^ j) s = s"
  by (induction j) (simp_all add: tick_idle)

lemma ticks_fire:
  assumes "settled s" "0 < countdown s" "pendingAction s = Some a" "countdown s \<le> int k"
  shows "(tick ^^ k) s = fired a s"
proof -
  obtain n where n: "countdown s = int (Suc n)"
    using assms(2) by (metis Suc_pred' pos_int_cases)
  then obtain j where k: "k = j + Suc n"
    using assms(4) by (metis add.commute le_Suc_ex of_nat_le_iff)
  let ?s = "s\<lparr>countdown := 1\<rparr>"
  have "(tick ^^ n) s = s\<lparr>countdown := countdown s - int n\<rparr>"
    using assms(1) n by (intro ticks_counting) simp_all
  then have 1: "(tick ^^ n) s = ?s" using n by simp
  have "settled ?s" using assms(1,2) by (simp add: settled_countdown)
  then have "tick ?s = fired a s"
    using tick_fires[of ?s a] assms(3) by (simp add: fired_def)
  with 1 have 2: "(tick ^^ Suc n) s = fired a s" by simp
  have "(tick ^^ k) s = (tick ^^ j) ((tick ^^ Suc n) s)"
    unfolding k by (simp only: funpow_add o_apply)
  also have "\<dots> = fired a s"
    unfolding 2 by (rule ticks_idle) (simp_all add: fired_settled, simp add: fired_def)
  finally show ?thesis .
qed

lemma initial_settled: "settled initial_client"
  by (simp add: settled_def initial_client_def)

lemma handleQuotaError_settled: "settled s \<Longrightarrow> settled (handleQuotaError r f s)"
  by (simp add: handleQuotaError_state) (simp add: settled_def)

lemma on_quota_response_hint:
  "on_quota_response call (Some r) s = handleQuotaError r call s"
  "on_quota_response call None s = handleQuotaError 60 call s"
  by (simp_all add: on_quota_response_def handleQuotaError_def)

text \<open>
  C7. From a settled state, \<open>handleQuotaError r retryFn\<close> sets the countdown to
  \<open>max r 60\<close> and stores \<open>retryFn\<close>. Each firing of the interval lowers the countdown by
  one; before the firing that brings it to zero nothing is called and the action stays
  stored; from that firing on, the stored action has been called exactly once, and the
  error and the stored action are cleared. The loaders' 429 branch stores the very call
  that failed, cursor included, and a hint of 0 or none counts as 60.
\<close>

theorem countdown_retries_once:
  assumes "settled s"
  shows "(let s1 = handleQuotaError r retryFn s; n = nat (max r 60) in
            countdown s1 = max r 60 \<and> pendingAction s1 = Some retryFn \<and>
            (\<forall>k. k \<le> n \<longrightarrow> countdown ((tick ^^ k) s1) = max r 60 - int k) \<and>
            (\<forall>k. k < n \<longrightarrow>
               invoked ((tick ^^ k) s1) = invoked s \<and> pendingAction ((tick ^^ k) s1) = Some retryFn) \<and>
            (\<forall>k. n \<le> k \<longrightarrow>
               invoked ((tick ^^ k) s1) = invoked s @ [retryFn] \<and>
               pendingAction ((tick ^^ k) s1) = None \<and> error ((tick ^^ k) s1) = None \<and>
               countdown ((tick ^^ k) s1) = 0) \<and>
            on_quota_response retryFn (Some r) s = s1 \<and>
            on_quota_response retryFn None s = handleQuotaError 60 retryFn s)"
proof -
  let ?s1 = "handleQuotaError r retryFn s"
  let ?n = "nat (max r 60)"
  have st: "settled ?s1"
    using assms by (rule handleQuotaError_settled)
  have f: "countdown ?s1 = max r 60" "pendingAction ?s1 = Some retryFn" "invoked ?s1 = invoked s"
    using assms by (simp_all add: handleQuotaError_state)
  have before: "(tick ^^ k) ?s1 = ?s1\<lparr>countdown := max r 60 - int k\<rparr>" if "k < ?n" for k
    using ticks_counting[OF st, of k] that f(1) by simp
  have after: "(tick ^^ k) ?s1 = fired retryFn ?s1" if "?n \<le> k" for k
  proof -
    have "0 < countdown ?s1"
      using f(1) by simp
    moreover have "countdown ?s1 \<le> int k"
      using that f(1) by linarith
    ultimately show ?thesis
      using ticks_fire[OF st _ f(2), of k] by blast
  qed
  have c: "countdown ((tick ^^ k) ?s1) = max r 60 - int k" if "k \<le> ?n" for k
  proof (cases "k < ?n")
    case True
    then show ?thesis by (simp add: before)
  next
    case False
    with that have "k = ?n" by simp
    then have "int k = max r 60" by linarith
    moreover have "countdown ((tick ^^ k) ?s1) = 0"
      using after[of k] \<open>k = ?n\<close> by (simp add: fired_def)
    ultimately show ?thesis by simp
  qed
  have b: "invoked ((tick ^^ k) ?s1) = invoked s \<and> pendingAction ((tick ^^ k) ?s1) = Some retryFn"
    if "k < ?n" for k
    using before[OF that] f by simp
  have a: "invoked ((tick ^^ k) ?s1) = invoked s @ [retryFn] \<and>
      pendingAction ((tick ^^ k) ?s1) = None \<and> error ((tick ^^ k) ?s1) = None \<and>
      countdown ((tick ^^ k) ?s1) = 0" if "?n \<le> k" for k
    using after[OF that] f by (simp add: fired_def)
  show ?thesis
    unfolding Let_def using f(1,2) c b a on_quota_response_hint by blast
qed

theorem countdown_retries_once_witness:
  "countdown (handleQuotaError 30 (LoadReviews ''accounts/1'' ''locations/2'' (Some ''page2'')) initial_client) = 60 \<and>
   countdown ((tick ^^ 2) (handleQuotaError 30 (LoadReviews ''accounts/1'' ''locations/2'' (Some ''page2'')) initial_client)) = 58 \<and>
   invoked ((tick ^^ 59) (handleQuotaError 30 (LoadReviews ''accounts/1'' ''locations/2'' (Some ''page2'')) initial_client)) = [] \<and>
   invoked ((tick ^^ 60) (handleQuotaError 30 (LoadReviews ''accounts/1'' ''locations/2'' (Some ''page2'')) initial_client)) =
     [LoadReviews ''accounts/1'' ''locations/2'' (Some ''page2'')] \<and>
   error ((tick ^^ 60) (handleQuotaError 30 (LoadReviews ''accounts/1'' ''locations/2'' (Some ''page2'')) initial_client)) = None \<and>
   invoked ((tick ^^ 200) (handleQuotaError 30 (LoadReviews ''accounts/1'' ''locations/2'' (Some ''page2'')) initial_client)) =
     [LoadReviews ''accounts/1'' ''locations/2'' (Some ''page2'')]"
proof -
  let ?f = "LoadReviews ''accounts/1'' ''locations/2'' (Some ''page2'')"
  let ?s1 = "handleQuotaError 30 ?f initial_client"
  note T = countdown_retries_once[OF initial_settled, of 30 ?f, unfolded Let_def]
  have i: "invoked initial_client = []"
    by (simp add: initial_client_def)
  have 1: "countdown ?s1 = 60"
    using T by simp
  have c: "countdown ((tick ^^ k) ?s1) = 60 - int k" if "k \<le> 60" for k
    using T that by simp
  have b: "invoked ((tick ^^ k) ?s1) = []" if "k < 60" for k
    using T that i by simp
  have a: "invoked ((tick ^^ k) ?s1) = [?f] \<and> error ((tick ^^ k) ?s1) = None" if "60 \<le> k" for k
    using T that i by simp
  show ?thesis
    using 1 c[of 2] b[of 59] a[of 60] a[of 200] by simp
qed

lemma tick_settled: "settled s \<Longrightarrow> settled (tick s)"
  by (cases s) (auto simp: tick_def client_defs settled_def Let_def split: option.splits)

lemma dismiss_settled: "settled s \<Longrightarrow> settled (dismiss s)"
  by (cases s) (auto simp: dismiss_def client_defs settled_def Let_def split: option.splits)

lemma ticks_settled: "settled s \<Longrightarrow> settled ((tick ^^ j) s)"
  by (induction j) (simp_all add: tick_settled)

lemma settled_timers: "settled s \<Longrightarrow> timers s \<le> 1"
  by (simp add: settled_def)

text \<open>
  C8. A state holds one countdown and one stored action. When a second quota error arrives
  while the countdown of a first is running, the state is the one the second error alone
  would have produced: the countdown restarts from the second hint, the second action is
  stored, one interval is alive, and in every later state at most one; the first action
  is never called and the second is called once, when its countdown ends.
\<close>

theorem single_pending_retry:
  assumes "settled s" and "k < nat (max r1 60)"
  shows "(let s1 = (tick ^^ k) (handleQuotaError r1 f1 s); s2 = handleQuotaError r2 f2 s1 in
            pendingAction s1 = Some f1 \<and> countdown s1 = max r1 60 - int k \<and> timers s1 = 1 \<and>
            s2 = handleQuotaError r2 f2 s \<and>
            countdown s2 = max r2 60 \<and> pendingAction s2 = Some f2 \<and> timers s2 = 1 \<and>
            (\<forall>j. timers ((tick ^^ j) s2) \<le> 1) \<and>
            (\<forall>j. invoked ((tick ^^ j) s2) =
                   (if j < nat (max r2 60) then invoked s else invoked s @ [f2])))"
proof -
  let ?h1 = "handleQuotaError r1 f1 s"
  let ?s1 = "(tick ^^ k) ?h1"
  let ?s2 = "handleQuotaError r2 f2 ?s1"
  have h1: "settled ?h1" "countdown ?h1 = max r1 60"
    using assms(1) by (simp_all add: handleQuotaError_settled) (simp add: handleQuotaError_state)
  have "int k < countdown ?h1"
    using assms(2) h1(2) by linarith
  then have e1: "?s1 = ?h1\<lparr>countdown := max r1 60 - int k\<rparr>"
    using ticks_counting[OF h1(1), of k] h1(2) by simp
  have s1: "settled ?s1"
    using h1(1) by (rule ticks_settled)
  have p1: "pendingAction ?s1 = Some f1" "countdown ?s1 = max r1 60 - int k" "timers ?s1 = 1"
    "invoked ?s1 = invoked s"
    unfolding e1 using assms(1) by (simp_all add: handleQuotaError_state)
  have "?s2 =
      ?s1\<lparr>countdown := max r2 60, pendingAction := Some f2, error := Some QuotaMessage,
        countdownRef := True, timers := 1, cleanup := True\<rparr>"
    by (rule handleQuotaError_state[OF s1])
  also have "\<dots> =
      s\<lparr>countdown := max r2 60, pendingAction := Some f2, error := Some QuotaMessage,
        countdownRef := True, timers := 1, cleanup := True\<rparr>"
    by (subst e1) (simp add: handleQuotaError_state[OF assms(1)])
  also have "\<dots> = handleQuotaError r2 f2 s"
    by (simp add: handleQuotaError_state[OF assms(1)])
  finally have e2: "?s2 = handleQuotaError r2 f2 s" .
  have p2: "countdown ?s2 = max r2 60" "pendingAction ?s2 = Some f2" "timers ?s2 = 1"
    "invoked ?s2 = invoked s"
    using s1 p1(4) by (simp_all add: handleQuotaError_state)
  have s2: "settled ?s2"
    using s1 by (rule handleQuotaError_settled)
  have t: "timers ((tick ^^ j) ?s2) \<le> 1" for j
    using s2 by (intro settled_timers ticks_settled)
  have i: "invoked ((tick ^^ j) ?s2) = (if j < nat (max r2 60) then invoked s else invoked s @ [f2])"
    for j
  proof (cases "j < nat (max r2 60)")
    case True
    then have "int j < countdown ?s2"
      using p2(1) by linarith
    then show ?thesis
      using ticks_counting[OF s2, of j] True p2(4) by simp
  next
    case False
    then have "countdown ?s2 \<le> int j" "0 < countdown ?s2"
      using p2(1) by linarith+
    then show ?thesis
      using ticks_fire[OF s2 _ p2(2), of j] False p2(4) by (simp add: fired_def)
  qed
  show ?thesis
    unfolding Let_def using p1(1-3) e2 p2(1-3) t i by blast
qed

theorem single_pending_retry_witness:
  "countdown (handleQuotaError 90 (LoadLocations ''accounts/1'')
      ((tick ^^ 10) (handleQuotaError 30 LoadAccounts initial_client))) = 90 \<and>
   pendingAction (handleQuotaError 90 (LoadLocations ''accounts/1'')
      ((tick ^^ 10) (handleQuotaError 30 LoadAccounts initial_client))) = Some (LoadLocations ''accounts/1'') \<and>
   timers (handleQuotaError 90 (LoadLocations ''accounts/1'')
      ((tick ^^ 10) (handleQuotaError 30 LoadAccounts initial_client))) = 1 \<and>
   invoked ((tick ^^ 89) (handleQuotaError 90 (LoadLocations ''accounts/1'')
      ((tick ^^ 10) (handleQuotaError 30 LoadAccounts initial_client)))) = [] \<and>
   invoked ((tick ^^ 500) (handleQuotaError 90 (LoadLocations ''accounts/1'')
      ((tick ^^ 10) (handleQuotaError 30 LoadAccounts initial_client)))) = [LoadLocations ''accounts/1'']"
proof -
  have k: "(10::nat) < nat (max 30 60)"
    by simp
  note T = single_pending_retry[OF initial_settled k, of LoadAccounts 90 "LoadLocations ''accounts/1''",
      unfolded Let_def]
  let ?s2 = "handleQuotaError 90 (LoadLocations ''accounts/1'')
      ((tick ^^ 10) (handleQuotaError 30 LoadAccounts initial_client))"
  have i: "invoked initial_client = []"
    by (simp add: initial_client_def)
  have a0: "countdown ?s2 = max 90 60" "pendingAction ?s2 = Some (LoadLocations ''accounts/1'')"
    "timers ?s2 = 1"
    using T by blast+
  have b0: "\<forall>j. invoked ((tick ^^ j) ?s2) =
      (if j < nat (max 90 60) then invoked initial_client
       else invoked initial_client @ [LoadLocations ''accounts/1''])"
    using T by blast
  have a: "countdown ?s2 = 90" "pendingAction ?s2 = Some (LoadLocations ''accounts/1'')" "timers ?s2 = 1"
    using a0 by simp_all
  have b: "invoked ((tick ^^ j) ?s2) = (if j < 90 then [] else [LoadLocations ''accounts/1''])" for j
    using b0 i by simp
  show ?thesis
    using a b[of 89] b[of 500] by simp
qed

end
